theory Spec2Isabelle
  imports Complex_Main
begin

section \<open>Python floats\<close>

text \<open>
  A Python float is a finite number, one of the two infinities, or NaN. Finite values
  are modelled as reals, so the rounding of double precision is outside this model.
  \<open>float_le\<close> is Python's \<^verbatim>\<open><=\<close> on floats: every comparison with NaN is false.
\<close>

datatype py_float = Num real | PosInf | NegInf | NaN

fun float_le :: "py_float \<Rightarrow> py_float \<Rightarrow> bool" where
  "float_le NaN b = False"
| "float_le a NaN = False"
| "float_le NegInf b = True"
| "float_le a PosInf = True"
| "float_le (Num a) (Num b) = (a \<le> b)"
| "float_le a b = False"

section \<open>Data model (backend/models.py)\<close>

text \<open>
  The four tables of \<^verbatim>\<open>models.py\<close> as records; a table is the list of its rows in
  insertion order. Primary keys are Python integers. Foreign keys are nullable columns,
  hence \<open>int option\<close>. Float columns hold Python floats. The timestamp columns
  (\<^verbatim>\<open>created_at\<close>, \<^verbatim>\<open>timestamp\<close>) and \<^verbatim>\<open>password_hash\<close> are read by no
  operation modelled here and are left out.
\<close>

record user =
  uid :: int
  username :: string
  email :: string
  is_admin :: bool

record issue =
  iid :: int
  title :: string
  description :: string
  category :: string
  latitude :: py_float
  longitude :: py_float
  status :: string
  user_id :: int
  is_anonymous :: bool
  upvotes :: int
  flags :: int

record issue_image =
  img_id :: int
  filename :: string
  img_issue_id :: "int option"

record status_log =
  log_id :: int
  log_issue_id :: "int option"
  log_status :: string
  admin_id :: "int option"

record db =
  users :: "user list"
  issues :: "issue list"
  images :: "issue_image list"
  logs :: "status_log list"

text \<open>
  The outcome of a request that does not succeed: the three error responses the handlers
  of \<^verbatim>\<open>app.py\<close> return (400, 403, 404), and an exception that no handler catches.
\<close>

datatype error = BadRequest | Forbidden | NotFound | Unhandled

section \<open>Store access\<close>

text \<open>\<^verbatim>\<open>Issue.query.get(id)\<close> and \<^verbatim>\<open>User.query.get(id)\<close>: the row with that key, or None.\<close>

definition get_issue :: "db \<Rightarrow> int \<Rightarrow> issue option" where
  "get_issue d k = find (\<lambda>x. iid x = k) (issues d)"

definition get_user :: "db \<Rightarrow> int \<Rightarrow> user option" where
  "get_user d k = find (\<lambda>u. uid u = k) (users d)"

text \<open>
  Committing a mutated issue object writes its row back
  (\<^verbatim>\<open>UPDATE issues ... WHERE id = ?\<close>).
\<close>

definition commit_issue :: "db \<Rightarrow> issue \<Rightarrow> db" where
  "commit_issue d x = d\<lparr>issues := map (\<lambda>y. if iid y = iid x then x else y) (issues d)\<rparr>"

text \<open>A fresh integer primary key: one more than the largest key of the table.\<close>

definition next_id :: "int list \<Rightarrow> int" where
  "next_id ks = fold max ks 0 + 1"

text \<open>Adding a StatusLog row (\<^verbatim>\<open>db.session.add(log)\<close> followed by the commit).\<close>

definition add_log :: "db \<Rightarrow> int \<Rightarrow> string \<Rightarrow> int option \<Rightarrow> db" where
  "add_log d issue_id st adm =
     d\<lparr>logs := logs d @
        [\<lparr>log_id = next_id (map log_id (logs d)), log_issue_id = Some issue_id,
          log_status = st, admin_id = adm\<rparr>]\<rparr>"

text \<open>The relationships \<^verbatim>\<open>issue.logs\<close> and \<^verbatim>\<open>issue.images\<close>: the rows whose foreign key is the issue.\<close>

definition logs_of :: "db \<Rightarrow> int \<Rightarrow> status_log list" where
  "logs_of d k = filter (\<lambda>l. log_issue_id l = Some k) (logs d)"

definition images_of :: "db \<Rightarrow> int \<Rightarrow> issue_image list" where
  "images_of d k = filter (\<lambda>m. img_issue_id m = Some k) (images d)"

section \<open>Upvoting (upvote\_issue)\<close>

text \<open>
  \<^verbatim>\<open>
  issue = Issue.query.get_or_404(issue_id)
  issue.upvotes += 1
  db.session.commit()
  return jsonify({"upvotes": issue.upvotes})
  \<close>
  The route requires a token, but the handler never reads the identity: the
  caller is an argument the function ignores.
\<close>

definition upvote_issue :: "db \<Rightarrow> int \<Rightarrow> int \<Rightarrow> (error + int) \<times> db" where
  "upvote_issue d caller issue_id =
     (case get_issue d issue_id of
        None \<Rightarrow> (Inl NotFound, d)
      | Some x \<Rightarrow>
          (let x' = x\<lparr>upvotes := upvotes x + 1\<rparr>
           in (Inr (upvotes x'), commit_issue d x')))"

text \<open>One upvote request per principal of the list, in order, with the responses collected.\<close>

fun upvote_calls :: "db \<Rightarrow> int list \<Rightarrow> int \<Rightarrow> (error + int) list \<times> db" where
  "upvote_calls d [] issue_id = ([], d)"
| "upvote_calls d (p # ps) issue_id =
     (let (r, d') = upvote_issue d p issue_id;
          (rs, d'') = upvote_calls d' ps issue_id
      in (r # rs, d''))"

section \<open>The serialised issue (format\_issue)\<close>

text \<open>
  \<^verbatim>\<open>format_issue\<close> builds the JSON object of an issue. It reads \<^verbatim>\<open>issue.user.id\<close>
  unless the issue is anonymous, so it raises AttributeError when the owner's row is
  missing (None here). The admin of a log entry is guarded (\<^verbatim>\<open>if log.admin\<close>).
  \<^verbatim>\<open>can_edit\<close> is \<^verbatim>\<open>current_user_id == issue.user_id if current_user_id else False\<close>,
  where an absent identity and the identity 0 are both falsy.
\<close>

record issue_view =
  v_issue :: issue
  v_user :: "(int \<times> string) option"
  v_images :: "string list"
  v_can_edit :: bool
  v_logs :: "(string \<times> (int \<times> string) option) list"

definition format_issue :: "db \<Rightarrow> issue \<Rightarrow> int option \<Rightarrow> issue_view option" where
  "format_issue d x current_user_id =
     (let owner = get_user d (user_id x)
      in if \<not> is_anonymous x \<and> owner = None then None
         else Some
           \<lparr>v_issue = x,
            v_user = (if is_anonymous x then None
                      else map_option (\<lambda>u. (uid u, username u)) owner),
            v_images = map filename (images_of d (iid x)),
            v_can_edit = (case current_user_id of
                            None \<Rightarrow> False
                          | Some c \<Rightarrow> if c \<noteq> 0 then c = user_id x else False),
            v_logs = map (\<lambda>l. (log_status l,
                                 case admin_id l of
                                   None \<Rightarrow> None
                                 | Some a \<Rightarrow> map_option (\<lambda>u. (uid u, username u)) (get_user d a)))
                         (logs_of d (iid x))\<rparr>)"

section \<open>Flagging (flag\_issue)\<close>

text \<open>
  \<^verbatim>\<open>
  issue = Issue.query.get_or_404(issue_id)
  issue.flags += 1
  if issue.flags >= 5:  # Auto-hide if flagged by 5 users
      issue.status = "Flagged"
      log = StatusLog(issue_id=issue_id, status="Flagged")
      db.session.add(log)
  db.session.commit()
  return jsonify({"flags": issue.flags})
  \<close>
\<close>

definition flag_issue :: "db \<Rightarrow> int \<Rightarrow> int \<Rightarrow> (error + int) \<times> db" where
  "flag_issue d caller issue_id =
     (case get_issue d issue_id of
        None \<Rightarrow> (Inl NotFound, d)
      | Some x \<Rightarrow>
          (let x1 = x\<lparr>flags := flags x + 1\<rparr>
           in if flags x1 \<ge> 5
              then (let x2 = x1\<lparr>status := ''Flagged''\<rparr>
                    in (Inr (flags x2),
                        add_log (commit_issue d x2) issue_id ''Flagged'' None))
              else (Inr (flags x1), commit_issue d x1)))"

text \<open>One flag request per principal of the list, in order; the store afterwards.\<close>

fun flag_calls :: "db \<Rightarrow> int list \<Rightarrow> int \<Rightarrow> db" where
  "flag_calls d [] issue_id = d"
| "flag_calls d (p # ps) issue_id = flag_calls (snd (flag_issue d p issue_id)) ps issue_id"

text \<open>The StatusLog entries of an issue whose status is Flagged.\<close>

definition flagged_logs :: "db \<Rightarrow> int \<Rightarrow> status_log list" where
  "flagged_logs d k = filter (\<lambda>l. log_status l = ''Flagged'') (logs_of d k)"

section \<open>Admin status update (update\_issue\_status)\<close>

text \<open>
  \<^verbatim>\<open>
  user = User.query.get(get_jwt_identity())
  if not user.is_admin:
      return jsonify({"error": "Unauthorized"}), 403
  issue = Issue.query.get_or_404(issue_id)
  new_status = request.json.get('status')
  if not new_status or new_status not in ["Reported", "In Progress", "Resolved"]:
      return jsonify({"error": "Invalid status"}), 400
  issue.status = new_status
  log = StatusLog(issue_id=issue_id, status=new_status, admin_id=user.id)
  db.session.add(log)
  db.session.commit()
  return jsonify(format_issue(issue))
  \<close>
  A token whose user row is missing makes \<^verbatim>\<open>user.is_admin\<close> raise. The status of the
  request body is a string or absent.
\<close>

definition valid_statuses :: "string list" where
  "valid_statuses = [''Reported'', ''In Progress'', ''Resolved'']"

definition update_issue_status ::
  "db \<Rightarrow> int \<Rightarrow> int \<Rightarrow> string option \<Rightarrow> (error + issue_view) \<times> db" where
  "update_issue_status d caller issue_id new_status =
     (case get_user d caller of
        None \<Rightarrow> (Inl Unhandled, d)
      | Some u \<Rightarrow>
          if \<not> is_admin u then (Inl Forbidden, d)
          else (case get_issue d issue_id of
                  None \<Rightarrow> (Inl NotFound, d)
                | Some x \<Rightarrow>
                    (case new_status of
                       None \<Rightarrow> (Inl BadRequest, d)
                     | Some s \<Rightarrow>
                         if s = [] \<or> s \<notin> set valid_statuses then (Inl BadRequest, d)
                         else (let x' = x\<lparr>status := s\<rparr>;
                                   d' = add_log (commit_issue d x') issue_id s (Some (uid u))
                               in case format_issue d' x' None of
                                    None \<Rightarrow> (Inl Unhandled, d')
                                  | Some v \<Rightarrow> (Inr v, d')))))"

section \<open>Editing (update\_issue)\<close>

text \<open>
  \<^verbatim>\<open>
  user_id = get_jwt_identity()
  issue = Issue.query.get_or_404(issue_id)
  if issue.user_id != user_id and not User.query.get(user_id).is_admin:
      return jsonify({"error": "Unauthorized"}), 403
  data = request.json
  if 'title' in data:
      issue.title = data['title']
  if 'description' in data:
      issue.description = data['description']
  if 'category' in data:
      issue.category = data['category']
  db.session.commit()
  return jsonify(format_issue(issue, user_id))
  \<close>
  The request body is a dictionary from field names to strings. The user row is looked up
  only when the caller is not the owner (\<^verbatim>\<open>and\<close> short-circuits).
\<close>

definition edit_fields :: "issue \<Rightarrow> (string \<rightharpoonup> string) \<Rightarrow> issue" where
  "edit_fields x data =
     (let x1 = (case data ''title'' of None \<Rightarrow> x | Some t \<Rightarrow> x\<lparr>title := t\<rparr>);
          x2 = (case data ''description'' of None \<Rightarrow> x1 | Some t \<Rightarrow> x1\<lparr>description := t\<rparr>);
          x3 = (case data ''category'' of None \<Rightarrow> x2 | Some t \<Rightarrow> x2\<lparr>category := t\<rparr>)
      in x3)"

definition edit_denied :: "db \<Rightarrow> issue \<Rightarrow> int \<Rightarrow> bool option" where
  "edit_denied d x caller =
     (if user_id x \<noteq> caller
      then (case get_user d caller of None \<Rightarrow> None | Some u \<Rightarrow> Some (\<not> is_admin u))
      else Some False)"

definition update_issue ::
  "db \<Rightarrow> int \<Rightarrow> int \<Rightarrow> (string \<rightharpoonup> string) \<Rightarrow> (error + issue_view) \<times> db" where
  "update_issue d caller issue_id data =
     (case get_issue d issue_id of
        None \<Rightarrow> (Inl NotFound, d)
      | Some x \<Rightarrow>
          (case edit_denied d x caller of
             None \<Rightarrow> (Inl Unhandled, d)
           | Some True \<Rightarrow> (Inl Forbidden, d)
           | Some False \<Rightarrow>
               (let x' = edit_fields x data;
                    d' = commit_issue d x'
                in case format_issue d' x' (Some caller) of
                     None \<Rightarrow> (Inl Unhandled, d')
                   | Some v \<Rightarrow> (Inr v, d'))))"

section \<open>Admin delete (delete\_issue)\<close>

text \<open>
  \<^verbatim>\<open>
  user = User.query.get(get_jwt_identity())
  if not user.is_admin:
      return jsonify({"error": "Unauthorized"}), 403
  issue = Issue.query.get_or_404(issue_id)
  db.session.delete(issue)
  db.session.commit()
  return jsonify({"message": "Issue deleted"})
  \<close>
  The relationships \<^verbatim>\<open>images\<close> and \<^verbatim>\<open>logs\<close> of \<^verbatim>\<open>models.py\<close> (lines 42 and 43)
  declare no cascade option, and the foreign keys are nullable with no
  \<^verbatim>\<open>ondelete\<close>. Deleting the parent therefore deletes only the row of the issue;
  the session detaches the rows of its two collections by setting their foreign key
  to NULL.
\<close>

definition delete_issue :: "db \<Rightarrow> int \<Rightarrow> int \<Rightarrow> (error + unit) \<times> db" where
  "delete_issue d caller issue_id =
     (case get_user d caller of
        None \<Rightarrow> (Inl Unhandled, d)
      | Some u \<Rightarrow>
          if \<not> is_admin u then (Inl Forbidden, d)
          else (case get_issue d issue_id of
                  None \<Rightarrow> (Inl NotFound, d)
                | Some x \<Rightarrow>
                    (Inr (),
                     d\<lparr>issues := filter (\<lambda>y. iid y \<noteq> iid x) (issues d),
                       images := map (\<lambda>m. if img_issue_id m = Some (iid x)
                                           then m\<lparr>img_issue_id := None\<rparr> else m) (images d),
                       logs := map (\<lambda>l. if log_issue_id l = Some (iid x)
                                         then l\<lparr>log_issue_id := None\<rparr> else l) (logs d)\<rparr>)))"

text \<open>The rows that were children of issue \<open>k\<close> in \<open>d\<close> are gone from \<open>d'\<close>.\<close>

definition children_removed :: "db \<Rightarrow> db \<Rightarrow> int \<Rightarrow> bool" where
  "children_removed d d' k =
     (list_all (\<lambda>m. img_id m \<notin> set (map img_id (images_of d k))) (images d') \<and>
      list_all (\<lambda>l. log_id l \<notin> set (map log_id (logs_of d k))) (logs d'))"

section \<open>What the handlers take from outside the repository\<close>

text \<open>
  Three library functions decide branches of the handlers and are not code of this
  repository; the handlers take them as parameters.
  \<^item> \<open>pf\<close> is Python's \<^verbatim>\<open>float\<close> on a string: the float (\<^verbatim>\<open>float('nan')\<close> and
    \<^verbatim>\<open>float('inf')\<close> are floats), or None where \<^verbatim>\<open>float\<close> raises ValueError.
  \<^item> \<open>gd\<close> is \<^verbatim>\<open>geodesic(p, q).km\<close> of geopy: the distance in kilometres, or None
    where the library raises (it refuses some points).
  \<^item> \<open>sec\<close> is werkzeug's \<^verbatim>\<open>secure_filename\<close>.
\<close>

type_synonym pyfloat = "string \<Rightarrow> py_float option"
type_synonym geodesic = "py_float \<times> py_float \<Rightarrow> py_float \<times> py_float \<Rightarrow> py_float option"

text \<open>\<^verbatim>\<open>float(v)\<close> for a request value that may be absent: \<^verbatim>\<open>float(None)\<close> raises TypeError.\<close>

definition float_arg :: "pyfloat \<Rightarrow> string option \<Rightarrow> py_float option" where
  "float_arg pf v = (case v of None \<Rightarrow> None | Some s \<Rightarrow> pf s)"

section \<open>File names (allowed\_file, config.py)\<close>

text \<open>\<^verbatim>\<open>str.lower\<close> on the ASCII letters.\<close>

definition lower :: "string \<Rightarrow> string" where
  "lower s = map (\<lambda>c. let n = (of_char c :: nat)
                      in if 65 \<le> n \<and> n \<le> 90 then char_of (n + 32) else c) s"

text \<open>
  \<^verbatim>\<open>s.rsplit('.', 1)[1]\<close>: what follows the last dot; IndexError (None) when the
  string has no dot.
\<close>

definition rsplit_ext :: "string \<Rightarrow> string option" where
  "rsplit_ext s =
     (if CHR ''.'' \<in> set s
      then Some (rev (takeWhile (\<lambda>c. c \<noteq> CHR ''.'') (rev s)))
      else None)"

definition ALLOWED_EXTENSIONS :: "string list" where
  "ALLOWED_EXTENSIONS = [''png'', ''jpg'', ''jpeg'', ''gif'']"

definition allowed_file :: "string \<Rightarrow> bool" where
  "allowed_file fname =
     (CHR ''.'' \<in> set fname \<and>
      (case rsplit_ext fname of
         None \<Rightarrow> False
       | Some e \<Rightarrow> lower e \<in> set ALLOWED_EXTENSIONS))"

section \<open>Creating an issue (report\_issue)\<close>

text \<open>
  \<^verbatim>\<open>
  try:
      new_issue = Issue(title=data['title'], description=data['description'],
                        category=data['category'],
                        latitude=float(data['latitude']),
                        longitude=float(data['longitude']),
                        user_id=user_id,
                        is_anonymous=data.get('is_anonymous', 'false').lower() == 'true')
      db.session.add(new_issue)
      db.session.commit()
      if 'images' in request.files:
          for file in request.files.getlist('images'):
              if file and allowed_file(file.filename):
                  filename = f"{uuid.uuid4()}.{secure_filename(file.filename).rsplit('.', 1)[1].lower()}"
                  file.save(os.path.join(app.config['UPLOAD_FOLDER'], filename))
                  db.session.add(IssueImage(filename=filename, issue_id=new_issue.id))
      log = StatusLog(issue_id=new_issue.id, status="Reported")
      db.session.add(log)
      db.session.commit()
      return jsonify(format_issue(new_issue, user_id)), 201
  except Exception as e:
      db.session.rollback()
      return jsonify({"error": str(e)}), 400
  \<close>
  The form is a dictionary of strings; a missing key raises. An uploaded file comes with
  what the environment does for it: the value \<^verbatim>\<open>uuid.uuid4()\<close> returns, and whether
  \<^verbatim>\<open>file.save\<close> succeeds. A file object is falsy when its name is empty.
  The store in the result is the committed one: \<^verbatim>\<open>rollback\<close> discards what was added
  to the session since the last commit and nothing else.
  The first commit inserts the row of the issue. The columns \<^verbatim>\<open>latitude\<close> and
  \<^verbatim>\<open>longitude\<close> are declared \<^verbatim>\<open>nullable=False\<close> (models.py 32 and 33), and the
  default SQLite database binds a NaN as NULL: with a NaN coordinate the insert raises
  IntegrityError, which the handler catches. The other two columns declared
  \<^verbatim>\<open>nullable=False\<close>, title and category, always hold a string of the form here.
\<close>

record upload =
  up_filename :: string
  up_uuid :: string
  up_saves :: bool

definition new_issue_of :: "pyfloat \<Rightarrow> db \<Rightarrow> int \<Rightarrow> (string \<rightharpoonup> string) \<Rightarrow> issue option" where
  "new_issue_of pf d caller data =
     (case data ''title'' of None \<Rightarrow> None | Some t \<Rightarrow>
      case data ''description'' of None \<Rightarrow> None | Some ds \<Rightarrow>
      case data ''category'' of None \<Rightarrow> None | Some c \<Rightarrow>
      case data ''latitude'' of None \<Rightarrow> None | Some las \<Rightarrow>
      case pf las of None \<Rightarrow> None | Some la \<Rightarrow>
      case data ''longitude'' of None \<Rightarrow> None | Some los \<Rightarrow>
      case pf los of None \<Rightarrow> None | Some lo \<Rightarrow>
        Some \<lparr>iid = next_id (map iid (issues d)), title = t, description = ds,
              category = c, latitude = la, longitude = lo, status = ''Reported'',
              user_id = caller,
              is_anonymous =
                (lower (case data ''is_anonymous'' of None \<Rightarrow> ''false'' | Some a \<Rightarrow> a) = ''true''),
              upvotes = 0, flags = 0\<rparr>)"

text \<open>
  The loop over the uploaded files: the file names of the IssueImage objects added to the
  session, or None when an iteration raises.
\<close>

fun pending_images :: "(string \<Rightarrow> string) \<Rightarrow> upload list \<Rightarrow> string list option" where
  "pending_images sec [] = Some []"
| "pending_images sec (f # fs) =
     (if up_filename f \<noteq> [] \<and> allowed_file (up_filename f)
      then (case rsplit_ext (sec (up_filename f)) of
              None \<Rightarrow> None
            | Some e \<Rightarrow>
                if \<not> up_saves f then None
                else (case pending_images sec fs of
                        None \<Rightarrow> None
                      | Some rest \<Rightarrow> Some ((up_uuid f @ ''.'' @ lower e) # rest)))
      else pending_images sec fs)"

text \<open>Inserting the pending IssueImage rows at the commit, each with a fresh key.\<close>

fun add_images :: "db \<Rightarrow> int \<Rightarrow> string list \<Rightarrow> db" where
  "add_images d issue_id [] = d"
| "add_images d issue_id (n # ns) =
     add_images
       (d\<lparr>images := images d @
            [\<lparr>img_id = next_id (map img_id (images d)), filename = n,
              img_issue_id = Some issue_id\<rparr>]\<rparr>)
       issue_id ns"

definition report_issue ::
  "pyfloat \<Rightarrow> (string \<Rightarrow> string) \<Rightarrow> db \<Rightarrow> int \<Rightarrow> (string \<rightharpoonup> string) \<Rightarrow> upload list
     \<Rightarrow> (error + issue_view) \<times> db" where
  "report_issue pf sec d caller data files =
     (case new_issue_of pf d caller data of
        None \<Rightarrow> (Inl BadRequest, d)
      | Some x \<Rightarrow>
          if latitude x = NaN \<or> longitude x = NaN then (Inl BadRequest, d)
          else
          (let d1 = d\<lparr>issues := issues d @ [x]\<rparr>
           in case pending_images sec files of
                None \<Rightarrow> (Inl BadRequest, d1)
              | Some names \<Rightarrow>
                  (let d2 = add_log (add_images d1 (iid x) names) (iid x) ''Reported'' None
                   in case format_issue d2 x (Some caller) of
                        None \<Rightarrow> (Inl BadRequest, d2)
                      | Some v \<Rightarrow> (Inr v, d2))))"

section \<open>Listing nearby issues (is\_within\_radius, get\_issues)\<close>

text \<open>
  \<^verbatim>\<open>
  def is_within_radius(user_lat, user_lon, issue_lat, issue_lon, radius_km):
      return geodesic((user_lat, user_lon), (issue_lat, issue_lon)).km <= radius_km
  \<close>
\<close>

definition is_within_radius ::
  "geodesic \<Rightarrow> py_float \<Rightarrow> py_float \<Rightarrow> py_float \<Rightarrow> py_float \<Rightarrow> py_float \<Rightarrow> bool option" where
  "is_within_radius gd user_lat user_lon issue_lat issue_lon radius_km =
     map_option (\<lambda>km. float_le km radius_km)
       (gd (user_lat, user_lon) (issue_lat, issue_lon))"

text \<open>The list comprehension over the queried issues; None when the distance raises.\<close>

fun nearby_issues ::
  "geodesic \<Rightarrow> py_float \<Rightarrow> py_float \<Rightarrow> py_float \<Rightarrow> issue list \<Rightarrow> issue list option" where
  "nearby_issues gd user_lat user_lon radius [] = Some []"
| "nearby_issues gd user_lat user_lon radius (x # xs) =
     (case is_within_radius gd user_lat user_lon (latitude x) (longitude x) radius of
        None \<Rightarrow> None
      | Some b \<Rightarrow>
          (case nearby_issues gd user_lat user_lon radius xs of
             None \<Rightarrow> None
           | Some rest \<Rightarrow> Some (if b then x # rest else rest)))"

fun format_all :: "db \<Rightarrow> int option \<Rightarrow> issue list \<Rightarrow> issue_view list option" where
  "format_all d cu [] = Some []"
| "format_all d cu (x # xs) =
     (case format_issue d x cu of
        None \<Rightarrow> None
      | Some v \<Rightarrow>
          (case format_all d cu xs of None \<Rightarrow> None | Some vs \<Rightarrow> Some (v # vs)))"

text \<open>
  \<^verbatim>\<open>
  try:
      user_lat = float(request.args.get('lat'))
      user_lon = float(request.args.get('lon'))
  except (TypeError, ValueError):
      return jsonify({"error": "Invalid coordinates"}), 400
  radius = float(request.args.get('radius', 5))
  category = request.args.get('category')
  status = request.args.get('status')
  current_user_id = get_jwt_identity()
  query = Issue.query
  if category:
      query = query.filter_by(category=category)
  if status:
      query = query.filter_by(status=status)
  issues = query.all()
  nearby_issues = [issue for issue in issues
                   if is_within_radius(user_lat, user_lon, issue.latitude, issue.longitude, radius)]
  return jsonify([format_issue(issue, current_user_id) for issue in nearby_issues])
  \<close>
  The query string is a dictionary of strings. An empty string is falsy, so an empty
  \<^verbatim>\<open>category\<close> or \<^verbatim>\<open>status\<close> filters nothing.
\<close>

definition query_filter :: "(issue \<Rightarrow> string) \<Rightarrow> string option \<Rightarrow> issue list \<Rightarrow> issue list" where
  "query_filter col v xs =
     (case v of
        None \<Rightarrow> xs
      | Some s \<Rightarrow> if s \<noteq> [] then filter (\<lambda>x. col x = s) xs else xs)"

definition get_issues ::
  "pyfloat \<Rightarrow> geodesic \<Rightarrow> db \<Rightarrow> int option \<Rightarrow> (string \<rightharpoonup> string) \<Rightarrow> error + issue_view list" where
  "get_issues pf gd d current_user_id args =
     (case float_arg pf (args ''lat'') of
        None \<Rightarrow> Inl BadRequest
      | Some user_lat \<Rightarrow>
     (case float_arg pf (args ''lon'') of
        None \<Rightarrow> Inl BadRequest
      | Some user_lon \<Rightarrow>
     (case (case args ''radius'' of None \<Rightarrow> Some (Num 5) | Some s \<Rightarrow> pf s) of
        None \<Rightarrow> Inl Unhandled
      | Some radius \<Rightarrow>
          (let queried = query_filter status (args ''status'')
                           (query_filter category (args ''category'') (issues d))
           in case nearby_issues gd user_lat user_lon radius queried of
                None \<Rightarrow> Inl Unhandled
              | Some nearby \<Rightarrow>
                  (case format_all d current_user_id nearby of
                     None \<Rightarrow> Inl Unhandled
                   | Some vs \<Rightarrow> Inr vs)))))"

section \<open>Sequences of lifecycle operations\<close>

datatype op =
    Create int "string \<rightharpoonup> string" "upload list"
  | Edit int int "string \<rightharpoonup> string"
  | SetStatus int int "string option"
  | Upvote int int
  | Flag int int
  | Delete int int

fun apply_op :: "pyfloat \<Rightarrow> (string \<Rightarrow> string) \<Rightarrow> op \<Rightarrow> db \<Rightarrow> db" where
  "apply_op pf sec (Create caller data files) d = snd (report_issue pf sec d caller data files)"
| "apply_op pf sec (Edit caller k data) d = snd (update_issue d caller k data)"
| "apply_op pf sec (SetStatus caller k s) d = snd (update_issue_status d caller k s)"
| "apply_op pf sec (Upvote caller k) d = snd (upvote_issue d caller k)"
| "apply_op pf sec (Flag caller k) d = snd (flag_issue d caller k)"
| "apply_op pf sec (Delete caller k) d = snd (delete_issue d caller k)"

definition run :: "pyfloat \<Rightarrow> (string \<Rightarrow> string) \<Rightarrow> op list \<Rightarrow> db \<Rightarrow> db" where
  "run pf sec ops d = fold (apply_op pf sec) ops d"

fun is_SetStatus :: "op \<Rightarrow> bool" where
  "is_SetStatus (SetStatus caller k s) = True"
| "is_SetStatus other = False"

text \<open>The invariant of the data model: five flags or more means status Flagged.\<close>

definition flag_inv :: "db \<Rightarrow> bool" where
  "flag_inv d = list_all (\<lambda>x. flags x \<ge> 5 \<longrightarrow> status x = ''Flagged'') (issues d)"

text \<open>The same invariant with the issues of the list \<open>ms\<close> set apart.\<close>

definition flag_inv_except :: "int list \<Rightarrow> db \<Rightarrow> bool" where
  "flag_inv_except ms d =
     list_all (\<lambda>x. flags x \<ge> 5 \<longrightarrow> status x = ''Flagged'' \<or> iid x \<in> set ms) (issues d)"

text \<open>
  An admin's status update that is written to the store: the caller is an admin, the
  issue exists and the new status is one of the three that are accepted.
\<close>

definition status_written :: "db \<Rightarrow> int \<Rightarrow> int \<Rightarrow> string option \<Rightarrow> bool" where
  "status_written d caller k ns =
     ((case get_user d caller of None \<Rightarrow> False | Some u \<Rightarrow> is_admin u) \<and>
      get_issue d k \<noteq> None \<and>
      (case ns of None \<Rightarrow> False | Some s \<Rightarrow> s \<in> set valid_statuses))"

text \<open>
  The ids of the issues whose status an admin has set since the last flag request on
  them: a written status update on \<open>k\<close> puts \<open>k\<close> in, a flag request on \<open>k\<close> takes it
  out, and no other operation changes the list. \<open>moved_out\<close> follows a sequence of
  operations from the store \<open>d\<close> and the list \<open>ms\<close>.
\<close>

fun moved_step :: "op \<Rightarrow> db \<Rightarrow> int list \<Rightarrow> int list" where
  "moved_step (SetStatus caller k ns) d ms = (if status_written d caller k ns then k # ms else ms)"
| "moved_step (Flag caller k) d ms = removeAll k ms"
| "moved_step other d ms = ms"

fun moved_out :: "pyfloat \<Rightarrow> (string \<Rightarrow> string) \<Rightarrow> op list \<Rightarrow> db \<Rightarrow> int list \<Rightarrow> int list" where
  "moved_out pf sec [] d ms = ms"
| "moved_out pf sec (a # ops) d ms =
     moved_out pf sec ops (apply_op pf sec a d) (moved_step a d ms)"

section \<open>Sample data\<close>

text \<open>
  A small store: two ordinary users and an admin, one freshly reported issue with one
  image and its initial log entry. \<open>sample_float\<close> gives the values of \<^verbatim>\<open>float\<close> on
  the strings the examples use and \<open>sample_geodesic\<close> the distances between the points
  they use; \<open>strip_dots\<close> stands for \<^verbatim>\<open>secure_filename\<close>, which removes leading and
  trailing dots of a name among other things.
\<close>

definition sample_users :: "user list" where
  "sample_users =
     [\<lparr>uid = 1, username = ''asha'', email = ''asha@example.org'', is_admin = False\<rparr>,
      \<lparr>uid = 2, username = ''ben'', email = ''ben@example.org'', is_admin = False\<rparr>,
      \<lparr>uid = 3, username = ''root'', email = ''root@example.org'', is_admin = True\<rparr>]"

definition sample_issue :: issue where
  "sample_issue =
     \<lparr>iid = 1, title = ''Pothole'', description = ''Deep pothole near the bus stop'',
      category = ''pothole'', latitude = Num 12.972, longitude = Num 77.595,
      status = ''Reported'', user_id = 1, is_anonymous = False, upvotes = 0, flags = 0\<rparr>"

definition empty_db :: db where
  "empty_db = \<lparr>users = sample_users, issues = [], images = [], logs = []\<rparr>"

definition sample_db :: db where
  "sample_db =
     \<lparr>users = sample_users,
      issues = [sample_issue],
      images = [\<lparr>img_id = 1, filename = ''a1.png'', img_issue_id = Some 1\<rparr>],
      logs = [\<lparr>log_id = 1, log_issue_id = Some 1, log_status = ''Reported'', admin_id = None\<rparr>]\<rparr>"

definition sample_float :: pyfloat where
  "sample_float =
     map_of [(''12.9716'', Num 12.9716), (''77.5946'', Num 77.5946), (''12.972'', Num 12.972),
             (''77.595'', Num 77.595), (''5'', Num 5), (''0'', Num 0), (''1000'', Num 1000),
             (''500'', Num 500), (''nan'', NaN), (''inf'', PosInf)]"

definition in_degrees :: "py_float \<Rightarrow> bool" where
  "in_degrees a = (float_le (Num (- 90)) a \<and> float_le a (Num 90))"

definition sample_geodesic :: geodesic where
  "sample_geodesic p q =
     (if p = q then Some (Num 0)
      else if p = (Num 12.9716, Num 77.5946) \<and> q = (Num 12.972, Num 77.595)
      then Some (Num 0.06)
      else if \<not> in_degrees (fst p) \<or> \<not> in_degrees (fst q) then None
      else Some (Num 9))"

definition strip_dots :: "string \<Rightarrow> string" where
  "strip_dots s =
     rev (dropWhile (\<lambda>c. c = CHR ''.'') (rev (dropWhile (\<lambda>c. c = CHR ''.'') s)))"

definition sample_form :: "string \<rightharpoonup> string" where
  "sample_form =
     map_of [(''title'', ''Pothole''), (''description'', ''Deep pothole near the bus stop''),
             (''category'', ''pothole''), (''latitude'', ''12.972''), (''longitude'', ''77.595'')]"

text \<open>The sample store after five flag requests on its issue.\<close>

definition flagged_db :: db where
  "flagged_db = flag_calls sample_db [1, 2, 1, 2, 3] 1"

text \<open>A create form with empty texts and coordinates far outside the ranges of degrees.\<close>

definition unchecked_form :: "string \<rightharpoonup> string" where
  "unchecked_form =
     map_of [(''title'', ''''), (''description'', ''''), (''category'', ''''),
             (''latitude'', ''1000''), (''longitude'', ''500'')]"

section \<open>Basic facts about the store\<close>

lemma find_map_replace:
  "iid y = k \<Longrightarrow>
   find (\<lambda>x. iid x = k) (map (\<lambda>x. if iid x = k then y else x) xs) =
     (case find (\<lambda>x. iid x = k) xs of None \<Rightarrow> None | Some _ \<Rightarrow> Some y)"
  by (induction xs) auto

lemma find_Some_iid: "find (\<lambda>x. iid x = k) xs = Some x \<Longrightarrow> iid x = k"
  by (induction xs) (auto split: if_splits)

lemma get_issue_iid: "get_issue d k = Some x \<Longrightarrow> iid x = k"
  unfolding get_issue_def by (rule find_Some_iid)

lemma get_issue_commit_same:
  "get_issue d k = Some x \<Longrightarrow> iid x' = k \<Longrightarrow> get_issue (commit_issue d x') k = Some x'"
  by (simp add: get_issue_def commit_issue_def find_map_replace)

section \<open>Upvotes count every call\<close>

lemma upvote_calls_general:
  "get_issue d i = Some x \<Longrightarrow>
   fst (upvote_calls d ps i) = map (\<lambda>k. Inr (upvotes x + int k)) [1 ..< Suc (length ps)] \<and>
   (\<exists>x'. get_issue (snd (upvote_calls d ps i)) i = Some x' \<and>
         upvotes x' = upvotes x + int (length ps))"
proof (induction ps arbitrary: d x)
  case Nil
  then show ?case by simp
next
  case (Cons p ps)
  let ?x1 = "x\<lparr>upvotes := upvotes x + 1\<rparr>"
  let ?d1 = "commit_issue d ?x1"
  have step: "upvote_issue d p i = (Inr (upvotes x + 1), ?d1)"
    using Cons.prems by (simp add: upvote_issue_def)
  have got: "get_issue ?d1 i = Some ?x1"
    using Cons.prems get_issue_iid [OF Cons.prems] by (simp add: get_issue_commit_same)
  note ih = Cons.IH [OF got]
  have shift: "map (\<lambda>k. Inr (upvotes x + int k) :: error + int) [1 ..< Suc (Suc (length ps))] =
        Inr (upvotes x + 1) # map (\<lambda>k. Inr (upvotes ?x1 + int k)) [1 ..< Suc (length ps)]"
  proof -
    have "[1 ..< Suc (Suc (length ps))] = 1 # map Suc [1 ..< Suc (length ps)]"
      by (metis One_nat_def map_Suc_upt upt_conv_Cons zero_less_Suc Suc_less_eq)
    then show ?thesis by (simp add: comp_def add.assoc)
  qed
  show ?case
    using ih step shift by (auto simp: split_def Let_def)
qed

text \<open>
  C9. On an issue whose upvote count is 0, N upvote requests, by any principals and with
  repetitions allowed, all succeed; the k-th one returns k, and the stored count is N
  afterwards.
\<close>

theorem upvote_n_times:
  "get_issue d i = Some x \<Longrightarrow> upvotes x = 0 \<Longrightarrow>
   fst (upvote_calls d ps i) = map (\<lambda>k. Inr (int k)) [1 ..< Suc (length ps)] \<and>
   (\<exists>x'. get_issue (snd (upvote_calls d ps i)) i = Some x' \<and> upvotes x' = int (length ps))"
  using upvote_calls_general [of d i x ps] by simp

theorem upvote_n_times_witness:
  "get_issue sample_db 1 = Some sample_issue \<and> upvotes sample_issue = 0 \<and>
   fst (upvote_calls sample_db [7, 7, 8] 1) = [Inr 1, Inr 2, Inr 3] \<and>
   (\<exists>x'. get_issue (snd (upvote_calls sample_db [7, 7, 8] 1)) 1 = Some x' \<and> upvotes x' = 3)"
proof -
  have h1: "get_issue sample_db 1 = Some sample_issue"
    by (simp add: get_issue_def sample_db_def sample_issue_def)
  have h2: "upvotes sample_issue = 0"
    by (simp add: sample_issue_def)
  have up: "[1 ..< Suc (length [7, 7, 8 :: int])] = [1, 2, 3]"
    by (simp add: upt_rec)
  show ?thesis
    using upvote_n_times [OF h1 h2, of "[7, 7, 8]"] h1 h2 unfolding up by simp
qed

section \<open>Flags and the Flagged log\<close>

lemma get_issue_add_log [simp]: "get_issue (add_log d k s a) j = get_issue d j"
  by (simp add: get_issue_def add_log_def)

lemma logs_of_commit_issue [simp]: "logs_of (commit_issue d x) k = logs_of d k"
  by (simp add: logs_of_def commit_issue_def)

lemma logs_of_add_log:
  "logs_of (add_log d k s a) j =
     logs_of d j @ (if j = k then [\<lparr>log_id = next_id (map log_id (logs d)), log_issue_id = Some k,
                                     log_status = s, admin_id = a\<rparr>] else [])"
  by (simp add: logs_of_def add_log_def)

lemma flag_issue_get:
  "get_issue d k = Some x \<Longrightarrow>
   get_issue (snd (flag_issue d c k)) k =
     Some (x\<lparr>flags := flags x + 1,
             status := (if flags x + 1 \<ge> 5 then ''Flagged'' else status x)\<rparr>)"
  using get_issue_iid [of d k x]
  by (simp add: flag_issue_def Let_def get_issue_commit_same)

lemma flag_issue_flagged_logs:
  "get_issue d k = Some x \<Longrightarrow>
   length (flagged_logs (snd (flag_issue d c k)) k) =
     length (flagged_logs d k) + (if flags x + 1 \<ge> 5 then 1 else 0)"
  by (simp add: flag_issue_def Let_def flagged_logs_def logs_of_add_log)

lemma flag_calls_general:
  "get_issue d k = Some x \<Longrightarrow>
   (\<exists>x'. get_issue (flag_calls d ps k) k = Some x' \<and>
         flags x' = flags x + int (length ps) \<and>
         status x' = (if ps \<noteq> [] \<and> flags x + int (length ps) \<ge> 5 then ''Flagged'' else status x)) \<and>
   length (flagged_logs (flag_calls d ps k) k) =
     length (flagged_logs d k) + nat (flags x + int (length ps) - max (flags x) 4)"
proof (induction ps arbitrary: d x)
  case Nil
  then show ?case by simp
next
  case (Cons p ps)
  let ?x1 = "x\<lparr>flags := flags x + 1,
               status := (if flags x + 1 \<ge> 5 then ''Flagged'' else status x)\<rparr>"
  let ?d1 = "snd (flag_issue d p k)"
  have got: "get_issue ?d1 k = Some ?x1"
    using Cons.prems by (rule flag_issue_get)
  have cnt: "length (flagged_logs ?d1 k) =
             length (flagged_logs d k) + (if flags x + 1 \<ge> 5 then 1 else 0)"
    using Cons.prems by (rule flag_issue_flagged_logs)
  from Cons.IH [OF got] obtain x' where
    g: "get_issue (flag_calls ?d1 ps k) k = Some x'" and
    f: "flags x' = flags ?x1 + int (length ps)" and
    s: "status x' = (if ps \<noteq> [] \<and> flags ?x1 + int (length ps) \<ge> 5 then ''Flagged'' else status ?x1)" and
    l: "length (flagged_logs (flag_calls ?d1 ps k) k) =
        length (flagged_logs ?d1 k) + nat (flags ?x1 + int (length ps) - max (flags ?x1) 4)"
    by blast
  have f': "flags x' = flags x + int (length (p # ps))"
    using f by simp
  have s': "status x' = (if flags x + int (length (p # ps)) \<ge> 5 then ''Flagged'' else status x)"
    using s by (cases "ps = []") auto
  have l': "length (flagged_logs (flag_calls ?d1 ps k) k) =
        length (flagged_logs d k) + nat (flags x + int (length (p # ps)) - max (flags x) 4)"
    using l cnt by (auto simp: max_def)
  show ?case
    using g f' s' l' by simp
qed

text \<open>
  C1 (as the code has it). On an issue whose flag count is 0 and whose status is
  Reported, five flag requests leave the status Flagged and append exactly one StatusLog
  entry with status Flagged. A sixth flag request leaves the status Flagged and appends
  one more Flagged entry: the handler tests only the count, not the current status.
\<close>

theorem flag_five_then_six:
  "get_issue d k = Some x \<Longrightarrow> flags x = 0 \<Longrightarrow> status x = ''Reported'' \<Longrightarrow> length ps = 5 \<Longrightarrow>
   (\<exists>x5. get_issue (flag_calls d ps k) k = Some x5 \<and> status x5 = ''Flagged'' \<and> flags x5 = 5) \<and>
   length (flagged_logs (flag_calls d ps k) k) = length (flagged_logs d k) + 1 \<and>
   (\<exists>x6. get_issue (snd (flag_issue (flag_calls d ps k) p k)) k = Some x6 \<and>
          status x6 = ''Flagged'' \<and> flags x6 = 6) \<and>
   length (flagged_logs (snd (flag_issue (flag_calls d ps k) p k)) k) =
     length (flagged_logs d k) + 2"
proof -
  assume a: "get_issue d k = Some x" "flags x = 0" "status x = ''Reported''" "length ps = 5"
  have ne: "ps \<noteq> []" using a(4) by auto
  from flag_calls_general [OF a(1), of ps] a(2,4) ne obtain x5 where
    g5: "get_issue (flag_calls d ps k) k = Some x5" and f5: "flags x5 = 5" and
    s5: "status x5 = ''Flagged''" and
    l5: "length (flagged_logs (flag_calls d ps k) k) = length (flagged_logs d k) + 1"
    by auto
  have g6: "get_issue (snd (flag_issue (flag_calls d ps k) p k)) k =
            Some (x5\<lparr>flags := 6, status := ''Flagged''\<rparr>)"
    using flag_issue_get [OF g5, of p] f5 by simp
  have l6: "length (flagged_logs (snd (flag_issue (flag_calls d ps k) p k)) k) =
            length (flagged_logs d k) + 2"
    using flag_issue_flagged_logs [OF g5, of p] f5 l5 by simp
  show ?thesis using g5 f5 s5 l5 g6 l6 by simp
qed

text \<open>
  On the sample store the sixth flag request adds a second Flagged entry to the log of
  the issue, where C1 says that it appends none.
\<close>

theorem flag_sixth_counterexample:
  "get_issue sample_db 1 = Some sample_issue \<and> flags sample_issue = 0 \<and>
   status sample_issue = ''Reported'' \<and>
   length (flagged_logs (flag_calls sample_db [1, 2, 1, 2, 3] 1) 1) = 1 \<and>
   length (flagged_logs (snd (flag_issue (flag_calls sample_db [1, 2, 1, 2, 3] 1) 3 1)) 1) = 2"
  by (simp add: sample_db_def sample_issue_def get_issue_def flag_issue_def commit_issue_def
      add_log_def flagged_logs_def logs_of_def next_id_def Let_def)

theorem flag_five_then_six_witness:
  "get_issue sample_db 1 = Some sample_issue \<and> flags sample_issue = 0 \<and>
   status sample_issue = ''Reported'' \<and> length [1, 2, 1, 2, 3 :: int] = 5 \<and>
   length (flagged_logs (flag_calls sample_db [1, 2, 1, 2, 3] 1) 1) = 1 \<and>
   length (flagged_logs (snd (flag_issue (flag_calls sample_db [1, 2, 1, 2, 3] 1) 3 1)) 1) = 2"
proof -
  have h1: "get_issue sample_db 1 = Some sample_issue"
    by (simp add: get_issue_def sample_db_def sample_issue_def)
  have h2: "flags sample_issue = 0" and h3: "status sample_issue = ''Reported''"
    by (simp_all add: sample_issue_def)
  have h4: "length [1, 2, 1, 2, 3 :: int] = 5" by simp
  have z: "flagged_logs sample_db 1 = []"
    by (simp add: flagged_logs_def logs_of_def sample_db_def)
  show ?thesis
    using flag_five_then_six [OF h1 h2 h3 h4, of 3] h1 h2 h3 z by simp
qed

section \<open>Admin status updates\<close>

lemma find_Some_uid: "find (\<lambda>u. uid u = k) xs = Some u \<Longrightarrow> uid u = k"
  by (induction xs) (auto split: if_splits)

lemma get_user_uid: "get_user d k = Some u \<Longrightarrow> uid u = k"
  unfolding get_user_def by (rule find_Some_uid)

lemma get_user_add_log [simp]: "get_user (add_log d k s a) j = get_user d j"
  by (simp add: get_user_def add_log_def)

lemma get_user_commit_issue [simp]: "get_user (commit_issue d x) j = get_user d j"
  by (simp add: get_user_def commit_issue_def)

lemma logs_commit_issue [simp]: "logs (commit_issue d x) = logs d"
  by (simp add: commit_issue_def)

lemma images_commit_issue [simp]: "images (commit_issue d x) = images d"
  by (simp add: commit_issue_def)

lemma users_commit_issue [simp]: "users (commit_issue d x) = users d"
  by (simp add: commit_issue_def)

lemma format_issue_Some:
  "is_anonymous x \<or> get_user d (user_id x) \<noteq> None \<Longrightarrow>
   \<exists>v. format_issue d x cu = Some v \<and> v_issue v = x"
  by (auto simp: format_issue_def Let_def)

lemma update_issue_status_store:
  "get_user d caller = Some u \<Longrightarrow> is_admin u \<Longrightarrow> get_issue d k = Some x \<Longrightarrow>
   s \<in> set valid_statuses \<Longrightarrow>
   snd (update_issue_status d caller k (Some s)) =
     add_log (commit_issue d (x\<lparr>status := s\<rparr>)) k s (Some caller)"
  using get_user_uid [of d caller u]
  by (auto simp: update_issue_status_def Let_def valid_statuses_def split: option.splits)

text \<open>
  C7. A caller who is not an admin gets Forbidden. For an admin and an existing issue the
  request is a ValidationError (400) unless the new status is Reported, In Progress or
  Resolved, so Flagged cannot be set this way. Otherwise the status of the issue is set,
  whatever it was before (Flagged included), exactly one StatusLog entry is appended and
  its admin is the caller; the response is the serialised issue.
\<close>

theorem set_status_contract:
  "get_user d caller = Some u \<Longrightarrow>
   (\<not> is_admin u \<longrightarrow> update_issue_status d caller k ns = (Inl Forbidden, d)) \<and>
   (is_admin u \<longrightarrow> get_issue d k = Some x \<longrightarrow>
      (\<forall>s. ns = Some s \<longrightarrow> s \<notin> set valid_statuses) \<longrightarrow>
      update_issue_status d caller k ns = (Inl BadRequest, d)) \<and>
   (is_admin u \<longrightarrow> get_issue d k = Some x \<longrightarrow>
      update_issue_status d caller k (Some ''Flagged'') = (Inl BadRequest, d)) \<and>
   (is_admin u \<longrightarrow> get_issue d k = Some x \<longrightarrow> s \<in> set valid_statuses \<longrightarrow>
      get_issue (snd (update_issue_status d caller k (Some s))) k = Some (x\<lparr>status := s\<rparr>) \<and>
      logs (snd (update_issue_status d caller k (Some s))) =
        logs d @ [\<lparr>log_id = next_id (map log_id (logs d)), log_issue_id = Some k,
                   log_status = s, admin_id = Some caller\<rparr>] \<and>
      (is_anonymous x \<or> get_user d (user_id x) \<noteq> None \<longrightarrow>
         (\<exists>v. fst (update_issue_status d caller k (Some s)) = Inr v \<and>
              v_issue v = x\<lparr>status := s\<rparr>)))"
proof (intro conjI impI)
  assume u: "get_user d caller = Some u"
  { assume "\<not> is_admin u"
    then show "update_issue_status d caller k ns = (Inl Forbidden, d)"
      using u by (simp add: update_issue_status_def) }
  { assume a: "is_admin u" "get_issue d k = Some x" "\<forall>s. ns = Some s \<longrightarrow> s \<notin> set valid_statuses"
    then show "update_issue_status d caller k ns = (Inl BadRequest, d)"
      using u by (cases ns) (auto simp: update_issue_status_def) }
  { assume a: "is_admin u" "get_issue d k = Some x"
    then show "update_issue_status d caller k (Some ''Flagged'') = (Inl BadRequest, d)"
      using u by (simp add: update_issue_status_def valid_statuses_def) }
  { assume a: "is_admin u" "get_issue d k = Some x" "s \<in> set valid_statuses"
    note st = update_issue_status_store [OF u a]
    show "get_issue (snd (update_issue_status d caller k (Some s))) k = Some (x\<lparr>status := s\<rparr>)"
      using a(2) get_issue_iid [OF a(2)] unfolding st by (simp add: get_issue_commit_same)
    show "logs (snd (update_issue_status d caller k (Some s))) =
        logs d @ [\<lparr>log_id = next_id (map log_id (logs d)), log_issue_id = Some k,
                   log_status = s, admin_id = Some caller\<rparr>]"
      unfolding st by (simp add: add_log_def)
    { assume f: "is_anonymous x \<or> get_user d (user_id x) \<noteq> None"
      let ?x' = "x\<lparr>status := s\<rparr>"
      let ?d' = "add_log (commit_issue d ?x') k s (Some (uid u))"
      have "is_anonymous ?x' \<or> get_user ?d' (user_id ?x') \<noteq> None"
        using f by simp
      from format_issue_Some [OF this, of None] obtain v where
        v: "format_issue ?d' ?x' None = Some v" "v_issue v = ?x'" by blast
      have "s \<noteq> []" using a(3) by (auto simp: valid_statuses_def)
      then have "fst (update_issue_status d caller k (Some s)) = Inr v"
        using u a v(1) by (simp add: update_issue_status_def Let_def)
      then show "\<exists>v. fst (update_issue_status d caller k (Some s)) = Inr v \<and>
              v_issue v = x\<lparr>status := s\<rparr>"
        using v(2) by blast }
  }
qed

lemma flagged_db_eq:
  "flagged_db =
     \<lparr>users = sample_users,
      issues = [sample_issue\<lparr>flags := 5, status := ''Flagged''\<rparr>],
      images = [\<lparr>img_id = 1, filename = ''a1.png'', img_issue_id = Some 1\<rparr>],
      logs = [\<lparr>log_id = 1, log_issue_id = Some 1, log_status = ''Reported'', admin_id = None\<rparr>,
              \<lparr>log_id = 2, log_issue_id = Some 1, log_status = ''Flagged'', admin_id = None\<rparr>]\<rparr>"
  by (simp add: flagged_db_def sample_db_def sample_issue_def get_issue_def flag_issue_def
      commit_issue_def add_log_def next_id_def Let_def)

theorem set_status_contract_witness:
  "get_user flagged_db 3 = Some \<lparr>uid = 3, username = ''root'', email = ''root@example.org'', is_admin = True\<rparr> \<and>
   get_issue flagged_db 1 = Some (sample_issue\<lparr>flags := 5, status := ''Flagged''\<rparr>) \<and>
   ''Resolved'' \<in> set valid_statuses \<and>
   update_issue_status flagged_db 3 1 (Some ''Flagged'') = (Inl BadRequest, flagged_db) \<and>
   get_issue (snd (update_issue_status flagged_db 3 1 (Some ''Resolved''))) 1 =
     Some (sample_issue\<lparr>flags := 5, status := ''Resolved''\<rparr>) \<and>
   logs (snd (update_issue_status flagged_db 3 1 (Some ''Resolved''))) =
     logs flagged_db @ [\<lparr>log_id = 3, log_issue_id = Some 1, log_status = ''Resolved'', admin_id = Some 3\<rparr>]"
proof -
  let ?root = "\<lparr>uid = 3, username = ''root'', email = ''root@example.org'', is_admin = True\<rparr>"
  let ?x = "sample_issue\<lparr>flags := 5, status := ''Flagged''\<rparr>"
  have h1: "get_user flagged_db 3 = Some ?root"
    by (simp add: flagged_db_eq get_user_def sample_users_def)
  have h2: "get_issue flagged_db 1 = Some ?x"
    by (simp add: flagged_db_eq get_issue_def sample_issue_def)
  have h3: "''Resolved'' \<in> set valid_statuses"
    by (simp add: valid_statuses_def)
  have n: "next_id (map log_id (logs flagged_db)) = 3"
    by (simp add: flagged_db_eq next_id_def)
  show ?thesis
    using set_status_contract [OF h1, of 1 "Some ''Flagged''" ?x "''Resolved''"] h1 h2 h3 n
    by simp
qed

section \<open>Editing touches three fields\<close>

lemma edit_fields_eq:
  "edit_fields x data =
     x\<lparr>title := (case data ''title'' of None \<Rightarrow> title x | Some t \<Rightarrow> t),
       description := (case data ''description'' of None \<Rightarrow> description x | Some t \<Rightarrow> t),
       category := (case data ''category'' of None \<Rightarrow> category x | Some t \<Rightarrow> t)\<rparr>"
  by (simp add: edit_fields_def Let_def split: option.splits)

lemma update_issue_store:
  "get_issue d k = Some x \<Longrightarrow> edit_denied d x caller = Some False \<Longrightarrow>
   snd (update_issue d caller k data) = commit_issue d (edit_fields x data)"
  by (simp add: update_issue_def Let_def split: option.splits)

text \<open>
  C8. On an existing issue, an edit by a caller who is neither its owner nor an admin is
  answered Forbidden and the store is unchanged. An edit by the owner or by an admin
  rewrites the row of the issue with the title, description and category the request
  provides, each kept when absent; every other field of the issue, every other issue,
  and the tables of users, images and logs are as before.
\<close>

theorem edit_contract:
  "get_issue d k = Some x \<Longrightarrow>
   (user_id x \<noteq> caller \<longrightarrow> get_user d caller = Some u \<longrightarrow> \<not> is_admin u \<longrightarrow>
      update_issue d caller k data = (Inl Forbidden, d)) \<and>
   (user_id x = caller \<or> (get_user d caller = Some u \<and> is_admin u) \<longrightarrow>
      snd (update_issue d caller k data) =
        d\<lparr>issues := map (\<lambda>y. if iid y = k
                then x\<lparr>title := (case data ''title'' of None \<Rightarrow> title x | Some t \<Rightarrow> t),
                       description := (case data ''description'' of
                                         None \<Rightarrow> description x | Some t \<Rightarrow> t),
                       category := (case data ''category'' of
                                      None \<Rightarrow> category x | Some t \<Rightarrow> t)\<rparr>
                else y) (issues d)\<rparr> \<and>
      (is_anonymous x \<or> get_user d (user_id x) \<noteq> None \<longrightarrow>
         (\<exists>v. fst (update_issue d caller k data) = Inr v \<and>
              v_issue v = edit_fields x data \<and>
              status (v_issue v) = status x \<and> upvotes (v_issue v) = upvotes x \<and>
              flags (v_issue v) = flags x \<and> latitude (v_issue v) = latitude x \<and>
              longitude (v_issue v) = longitude x \<and> user_id (v_issue v) = user_id x \<and>
              v_images v = map filename (images_of d k) \<and>
              map fst (v_logs v) = map log_status (logs_of d k))))"
proof (intro conjI impI)
  assume x: "get_issue d k = Some x"
  note idx = get_issue_iid [OF x]
  { assume "user_id x \<noteq> caller" "get_user d caller = Some u" "\<not> is_admin u"
    then show "update_issue d caller k data = (Inl Forbidden, d)"
      using x by (simp add: update_issue_def edit_denied_def) }
  { assume ok: "user_id x = caller \<or> (get_user d caller = Some u \<and> is_admin u)"
    then have nd: "edit_denied d x caller = Some False"
      by (auto simp: edit_denied_def)
    show "snd (update_issue d caller k data) =
        d\<lparr>issues := map (\<lambda>y. if iid y = k
                then x\<lparr>title := (case data ''title'' of None \<Rightarrow> title x | Some t \<Rightarrow> t),
                       description := (case data ''description'' of
                                         None \<Rightarrow> description x | Some t \<Rightarrow> t),
                       category := (case data ''category'' of
                                      None \<Rightarrow> category x | Some t \<Rightarrow> t)\<rparr>
                else y) (issues d)\<rparr>"
      unfolding update_issue_store [OF x nd] edit_fields_eq using idx
      by (simp add: commit_issue_def)
    { assume f: "is_anonymous x \<or> get_user d (user_id x) \<noteq> None"
      let ?x' = "edit_fields x data"
      let ?d' = "commit_issue d ?x'"
      have "is_anonymous ?x' \<or> get_user ?d' (user_id ?x') \<noteq> None"
        using f by (simp add: edit_fields_eq)
      then have fo: "format_issue ?d' ?x' (Some caller) \<noteq> None"
        by (auto simp: format_issue_def Let_def)
      then obtain v where v: "format_issue ?d' ?x' (Some caller) = Some v" by blast
      have r: "fst (update_issue d caller k data) = Inr v"
        using x nd v by (simp add: update_issue_def Let_def)
      have vi: "v_issue v = ?x'"
        using v by (auto simp: format_issue_def Let_def split: if_splits)
      have im: "v_images v = map filename (images_of d k)"
        using v idx by (auto simp: format_issue_def Let_def edit_fields_eq images_of_def
            split: if_splits)
      have lg: "map fst (v_logs v) = map log_status (logs_of d k)"
        using v idx by (auto simp: format_issue_def Let_def edit_fields_eq comp_def
            split: if_splits)
      show "\<exists>v. fst (update_issue d caller k data) = Inr v \<and>
              v_issue v = edit_fields x data \<and>
              status (v_issue v) = status x \<and> upvotes (v_issue v) = upvotes x \<and>
              flags (v_issue v) = flags x \<and> latitude (v_issue v) = latitude x \<and>
              longitude (v_issue v) = longitude x \<and> user_id (v_issue v) = user_id x \<and>
              v_images v = map filename (images_of d k) \<and>
              map fst (v_logs v) = map log_status (logs_of d k)"
        using r vi im lg by (simp add: edit_fields_eq) }
  }
qed

theorem edit_contract_witness:
  "get_issue sample_db 1 = Some sample_issue \<and>
   update_issue sample_db 2 1 [''title'' \<mapsto> ''Mine now''] = (Inl Forbidden, sample_db) \<and>
   snd (update_issue sample_db 1 1 [''title'' \<mapsto> ''Big pothole'']) =
     sample_db\<lparr>issues := [sample_issue\<lparr>title := ''Big pothole''\<rparr>]\<rparr>"
proof -
  let ?ben = "\<lparr>uid = 2, username = ''ben'', email = ''ben@example.org'', is_admin = False\<rparr>"
  have h: "get_issue sample_db 1 = Some sample_issue"
    by (simp add: get_issue_def sample_db_def sample_issue_def)
  have b: "get_user sample_db 2 = Some ?ben"
    by (simp add: get_user_def sample_db_def sample_users_def)
  have o: "user_id sample_issue = 1" "iid sample_issue = 1"
    by (simp_all add: sample_issue_def)
  have i: "issues sample_db = [sample_issue]"
    by (simp add: sample_db_def)
  have r: "sample_issue\<lparr>title := ''Big pothole'', description := description sample_issue,
                        category := category sample_issue\<rparr> = sample_issue\<lparr>title := ''Big pothole''\<rparr>"
    by simp
  show ?thesis
    using edit_contract [OF h, of 2 ?ben "[''title'' \<mapsto> ''Mine now'']"]
          edit_contract [OF h, of 1 ?ben "[''title'' \<mapsto> ''Big pothole'']"] h b o i r
    by simp
qed

section \<open>Deleting an issue\<close>

lemma find_filter_neq: "find (\<lambda>x. iid x = k) (filter (\<lambda>y. iid y \<noteq> k) xs) = None"
  by (induction xs) auto

lemma delete_issue_store:
  "get_user d caller = Some u \<Longrightarrow> is_admin u \<Longrightarrow> get_issue d k = Some x \<Longrightarrow>
   delete_issue d caller k =
     (Inr (),
      d\<lparr>issues := filter (\<lambda>y. iid y \<noteq> k) (issues d),
        images := map (\<lambda>m. if img_issue_id m = Some k then m\<lparr>img_issue_id := None\<rparr> else m)
                      (images d),
        logs := map (\<lambda>l. if log_issue_id l = Some k then l\<lparr>log_issue_id := None\<rparr> else l)
                    (logs d)\<rparr>)"
  using get_issue_iid [of d k x] by (simp add: delete_issue_def)

lemma detach_images_none:
  "filter (\<lambda>m. img_issue_id m = Some k)
     (map (\<lambda>m. if img_issue_id m = Some k then m\<lparr>img_issue_id := None\<rparr> else m) ms) = []"
  by (induction ms) auto

lemma detach_logs_none:
  "filter (\<lambda>l. log_issue_id l = Some k)
     (map (\<lambda>l. if log_issue_id l = Some k then l\<lparr>log_issue_id := None\<rparr> else l) ls) = []"
  by (induction ls) auto

text \<open>
  C3 (as the code has it). For an existing issue, the delete request of an admin
  succeeds and removes the row of the issue, so that a later lookup of the id finds
  nothing and no image or log row refers to the id any more. The image and log rows of
  the issue are not removed: the store afterwards is the store before without the row
  of the issue, with every image and log row of the issue kept as it was except for a
  null issue reference, and with the users, the other issues and the other image and
  log rows untouched.
\<close>

theorem delete_detaches_children:
  "get_user d caller = Some u \<Longrightarrow> is_admin u \<Longrightarrow> get_issue d k = Some x \<Longrightarrow>
   delete_issue d caller k =
     (Inr (),
      d\<lparr>issues := filter (\<lambda>y. iid y \<noteq> k) (issues d),
        images := map (\<lambda>m. if img_issue_id m = Some k then m\<lparr>img_issue_id := None\<rparr> else m)
                      (images d),
        logs := map (\<lambda>l. if log_issue_id l = Some k then l\<lparr>log_issue_id := None\<rparr> else l)
                    (logs d)\<rparr>) \<and>
   get_issue (snd (delete_issue d caller k)) k = None \<and>
   images_of (snd (delete_issue d caller k)) k = [] \<and>
   logs_of (snd (delete_issue d caller k)) k = [] \<and>
   length (images (snd (delete_issue d caller k))) = length (images d) \<and>
   length (logs (snd (delete_issue d caller k))) = length (logs d)"
proof -
  assume a: "get_user d caller = Some u" "is_admin u" "get_issue d k = Some x"
  note st = delete_issue_store [OF a]
  show ?thesis
    unfolding st
    by (simp add: get_issue_def images_of_def logs_of_def find_filter_neq
        detach_images_none detach_logs_none)
qed

theorem delete_detaches_children_witness:
  "get_user sample_db 3 = Some \<lparr>uid = 3, username = ''root'', email = ''root@example.org'', is_admin = True\<rparr> \<and>
   get_issue sample_db 1 = Some sample_issue \<and>
   delete_issue sample_db 3 1 =
     (Inr (),
      \<lparr>users = sample_users, issues = [],
       images = [\<lparr>img_id = 1, filename = ''a1.png'', img_issue_id = None\<rparr>],
       logs = [\<lparr>log_id = 1, log_issue_id = None, log_status = ''Reported'', admin_id = None\<rparr>]\<rparr>) \<and>
   get_issue (snd (delete_issue sample_db 3 1)) 1 = None \<and>
   images_of (snd (delete_issue sample_db 3 1)) 1 = [] \<and>
   logs_of (snd (delete_issue sample_db 3 1)) 1 = []"
proof -
  let ?root = "\<lparr>uid = 3, username = ''root'', email = ''root@example.org'', is_admin = True\<rparr>"
  have h1: "get_user sample_db 3 = Some ?root"
    by (simp add: get_user_def sample_db_def sample_users_def)
  have h2: "is_admin ?root" by simp
  have h3: "get_issue sample_db 1 = Some sample_issue"
    by (simp add: get_issue_def sample_db_def sample_issue_def)
  have e: "sample_db\<lparr>issues := filter (\<lambda>y. iid y \<noteq> 1) (issues sample_db),
        images := map (\<lambda>m. if img_issue_id m = Some 1 then m\<lparr>img_issue_id := None\<rparr> else m)
                      (images sample_db),
        logs := map (\<lambda>l. if log_issue_id l = Some 1 then l\<lparr>log_issue_id := None\<rparr> else l)
                    (logs sample_db)\<rparr> =
      \<lparr>users = sample_users, issues = [],
       images = [\<lparr>img_id = 1, filename = ''a1.png'', img_issue_id = None\<rparr>],
       logs = [\<lparr>log_id = 1, log_issue_id = None, log_status = ''Reported'', admin_id = None\<rparr>]\<rparr>"
    by (simp add: sample_db_def sample_issue_def)
  show ?thesis
    using delete_detaches_children [OF h1 h2 h3] h1 h3 unfolding e by blast
qed

text \<open>
  On the sample store the admin's delete succeeds and the image and the log entry of the
  deleted issue are still rows of their tables, where C3 says they are removed with it.
\<close>

theorem delete_cascade_counterexample:
  "fst (delete_issue sample_db 3 1) = Inr () \<and>
   map img_id (images_of sample_db 1) = [1] \<and>
   map log_id (logs_of sample_db 1) = [1] \<and>
   images (snd (delete_issue sample_db 3 1)) =
     [\<lparr>img_id = 1, filename = ''a1.png'', img_issue_id = None\<rparr>] \<and>
   logs (snd (delete_issue sample_db 3 1)) =
     [\<lparr>log_id = 1, log_issue_id = None, log_status = ''Reported'', admin_id = None\<rparr>] \<and>
   \<not> children_removed sample_db (snd (delete_issue sample_db 3 1)) 1"
  by (simp add: delete_issue_def get_user_def get_issue_def sample_db_def sample_users_def
      sample_issue_def images_of_def logs_of_def children_removed_def)

section \<open>The flag invariant along sequences of operations\<close>

lemma find_Some_mem: "find P xs = Some x \<Longrightarrow> x \<in> set xs"
  by (induction xs) (auto split: if_splits)

lemma get_issue_mem: "get_issue d k = Some x \<Longrightarrow> x \<in> set (issues d)"
  unfolding get_issue_def by (rule find_Some_mem)

lemma get_issue_None_iid: "get_issue d k = None \<Longrightarrow> y \<in> set (issues d) \<Longrightarrow> iid y \<noteq> k"
  by (auto simp: get_issue_def find_None_iff)

lemma issues_add_log [simp]: "issues (add_log d k s a) = issues d"
  by (simp add: add_log_def)

lemma issues_add_images [simp]: "issues (add_images d k ns) = issues d"
  by (induction ns arbitrary: d) auto

lemma new_issue_of_flags: "new_issue_of pf d caller data = Some x \<Longrightarrow> flags x = 0"
  by (auto simp: new_issue_of_def split: option.splits)

lemma except_mem:
  "flag_inv_except ms d \<Longrightarrow> x \<in> set (issues d) \<Longrightarrow> flags x \<ge> 5 \<Longrightarrow>
   status x = ''Flagged'' \<or> iid x \<in> set ms"
  by (auto simp: flag_inv_except_def list_all_iff)

lemma except_commit:
  "flag_inv_except ms d \<Longrightarrow>
   (flags x \<ge> 5 \<longrightarrow> status x = ''Flagged'' \<or> iid x \<in> set ms) \<Longrightarrow>
   flag_inv_except ms (commit_issue d x)"
  by (auto simp: flag_inv_except_def commit_issue_def list_all_iff)

lemma report_issue_issues_cases:
  "issues (snd (report_issue pf sec d caller data files)) = issues d \<or>
   (\<exists>x. new_issue_of pf d caller data = Some x \<and>
        issues (snd (report_issue pf sec d caller data files)) = issues d @ [x])"
  by (auto simp: report_issue_def Let_def split: option.splits)

lemma except_report:
  assumes "flag_inv_except ms d"
  shows "flag_inv_except ms (snd (report_issue pf sec d caller data files))"
  using report_issue_issues_cases [of pf sec d caller data files]
proof
  assume "issues (snd (report_issue pf sec d caller data files)) = issues d"
  then show ?thesis using assms by (simp add: flag_inv_except_def)
next
  assume "\<exists>x. new_issue_of pf d caller data = Some x \<and>
        issues (snd (report_issue pf sec d caller data files)) = issues d @ [x]"
  then obtain x where n: "new_issue_of pf d caller data = Some x"
    and i: "issues (snd (report_issue pf sec d caller data files)) = issues d @ [x]"
    by blast
  have "flags x = 0" using n by (rule new_issue_of_flags)
  then show ?thesis using assms i by (simp add: flag_inv_except_def)
qed

lemma except_edit:
  assumes "flag_inv_except ms d"
  shows "flag_inv_except ms (snd (update_issue d caller k data))"
proof (cases "get_issue d k")
  case None
  then show ?thesis using assms by (simp add: update_issue_def)
next
  case (Some x)
  have keep: "flags (edit_fields x data) \<ge> 5 \<longrightarrow>
              status (edit_fields x data) = ''Flagged'' \<or> iid (edit_fields x data) \<in> set ms"
    using except_mem [OF assms get_issue_mem [OF Some]]
    by (simp add: edit_fields_def Let_def split: option.splits)
  show ?thesis
    using Some assms except_commit [OF assms keep]
    by (auto simp: update_issue_def Let_def split: option.splits bool.splits)
qed

lemma except_upvote:
  assumes "flag_inv_except ms d"
  shows "flag_inv_except ms (snd (upvote_issue d caller k))"
proof (cases "get_issue d k")
  case None
  then show ?thesis using assms by (simp add: upvote_issue_def)
next
  case (Some x)
  have keep: "flags (x\<lparr>upvotes := upvotes x + 1\<rparr>) \<ge> 5 \<longrightarrow>
              status (x\<lparr>upvotes := upvotes x + 1\<rparr>) = ''Flagged'' \<or>
              iid (x\<lparr>upvotes := upvotes x + 1\<rparr>) \<in> set ms"
    using except_mem [OF assms get_issue_mem [OF Some]] by simp
  show ?thesis
    using Some except_commit [OF assms keep] by (simp add: upvote_issue_def Let_def)
qed

lemma except_delete:
  assumes "flag_inv_except ms d"
  shows "flag_inv_except ms (snd (delete_issue d caller k))"
  using assms
  by (auto simp: delete_issue_def flag_inv_except_def list_all_iff split: option.splits)

lemma except_flag:
  assumes "flag_inv_except ms d"
  shows "flag_inv_except (removeAll k ms) (snd (flag_issue d caller k))"
proof (cases "get_issue d k")
  case None
  have "snd (flag_issue d caller k) = d" using None by (simp add: flag_issue_def)
  then show ?thesis
    using assms get_issue_None_iid [OF None]
    by (auto simp: flag_inv_except_def list_all_iff)
next
  case (Some x)
  let ?x' = "x\<lparr>flags := flags x + 1,
               status := (if flags x + 1 \<ge> 5 then ''Flagged'' else status x)\<rparr>"
  have i: "issues (snd (flag_issue d caller k)) =
           map (\<lambda>y. if iid y = k then ?x' else y) (issues d)"
    using Some get_issue_iid [OF Some]
    by (simp add: flag_issue_def Let_def commit_issue_def)
  show ?thesis
    unfolding flag_inv_except_def i list_all_iff using assms
    by (auto simp: flag_inv_except_def list_all_iff)
qed

lemma not_written_unchanged:
  "\<not> status_written d caller k ns \<Longrightarrow> snd (update_issue_status d caller k ns) = d"
  by (auto simp: status_written_def update_issue_status_def split: option.splits)

lemma written_issues:
  "status_written d caller k ns \<Longrightarrow>
   \<exists>x s. get_issue d k = Some x \<and>
         issues (snd (update_issue_status d caller k ns)) =
           map (\<lambda>y. if iid y = k then x\<lparr>status := s\<rparr> else y) (issues d)"
proof -
  assume w: "status_written d caller k ns"
  then obtain u x s where u: "get_user d caller = Some u" "is_admin u"
    and x: "get_issue d k = Some x" and s: "ns = Some s" "s \<in> set valid_statuses"
    by (auto simp: status_written_def split: option.splits)
  have "s \<noteq> []" using s(2) by (auto simp: valid_statuses_def)
  then have "issues (snd (update_issue_status d caller k ns)) =
           map (\<lambda>y. if iid y = k then x\<lparr>status := s\<rparr> else y) (issues d)"
    using u x s get_issue_iid [OF x]
    by (simp add: update_issue_status_def Let_def commit_issue_def split: option.splits)
  then show ?thesis using x by blast
qed

lemma except_set_status:
  assumes "flag_inv_except ms d"
  shows "flag_inv_except (if status_written d caller k ns then k # ms else ms)
           (snd (update_issue_status d caller k ns))"
proof (cases "status_written d caller k ns")
  case False
  then show ?thesis using assms by (simp add: not_written_unchanged)
next
  case True
  from written_issues [OF True] obtain x s where x: "get_issue d k = Some x"
    and i: "issues (snd (update_issue_status d caller k ns)) =
           map (\<lambda>y. if iid y = k then x\<lparr>status := s\<rparr> else y) (issues d)"
    by blast
  have "iid x = k" using x by (rule get_issue_iid)
  then show ?thesis
    using True assms unfolding flag_inv_except_def i list_all_iff by auto
qed

lemma except_apply_op:
  "flag_inv_except ms d \<Longrightarrow> flag_inv_except (moved_step a d ms) (apply_op pf sec a d)"
  by (cases a)
     (simp_all add: except_report except_edit except_upvote except_flag except_delete
        except_set_status)

lemma except_fold:
  "flag_inv_except ms d \<Longrightarrow>
   flag_inv_except (moved_out pf sec ops d ms) (fold (apply_op pf sec) ops d)"
  by (induction ops arbitrary: d ms) (simp_all add: except_apply_op)

lemma moved_out_without_set_status:
  "list_all (\<lambda>a. \<not> is_SetStatus a) ops \<Longrightarrow> set (moved_out pf sec ops d ms) \<subseteq> set ms"
proof (induction ops arbitrary: d ms)
  case Nil
  then show ?case by simp
next
  case (Cons a ops)
  have "set (moved_step a d ms) \<subseteq> set ms"
    using Cons.prems by (cases a) auto
  moreover have "set (moved_out pf sec ops (apply_op pf sec a d) (moved_step a d ms))
                 \<subseteq> set (moved_step a d ms)"
    using Cons.prems by (intro Cons.IH) simp
  ultimately show ?case by auto
qed

text \<open>
  C4 (as the code has it). Starting from a store with no issues, in every state reached
  by create, edit, setStatus, upvote, flag and delete requests, an issue whose flag count
  is at least 5 has status Flagged, unless an admin's setStatus on that issue has been
  written since the last flag request on it. When no issue is in that case the
  invariant holds for all issues, and that is so in particular along every sequence
  with no setStatus.
\<close>

theorem flag_invariant_except_admin_moves:
  "issues d = [] \<Longrightarrow>
   flag_inv_except (moved_out pf sec ops d []) (run pf sec ops d) \<and>
   (moved_out pf sec ops d [] = [] \<longrightarrow> flag_inv (run pf sec ops d)) \<and>
   (list_all (\<lambda>a. \<not> is_SetStatus a) ops \<longrightarrow> moved_out pf sec ops d [] = [])"
proof -
  assume e: "issues d = []"
  have "flag_inv_except [] d" using e by (simp add: flag_inv_except_def)
  then have 1: "flag_inv_except (moved_out pf sec ops d []) (run pf sec ops d)"
    unfolding run_def by (rule except_fold)
  have 2: "moved_out pf sec ops d [] = [] \<longrightarrow> flag_inv (run pf sec ops d)"
    using 1 by (auto simp: flag_inv_except_def flag_inv_def)
  have 3: "list_all (\<lambda>a. \<not> is_SetStatus a) ops \<longrightarrow> moved_out pf sec ops d [] = []"
    using moved_out_without_set_status [of ops pf sec d "[]"] by auto
  show ?thesis using 1 2 3 by blast
qed

subsection \<open>The sample run\<close>

lemma sample_new_issue:
  "new_issue_of sample_float empty_db 1 sample_form = Some sample_issue"
  by (simp add: new_issue_of_def sample_float_def sample_form_def empty_db_def
      sample_issue_def lower_def next_id_def)

lemma sample_issue_stored: "latitude sample_issue \<noteq> NaN" "longitude sample_issue \<noteq> NaN"
  by (simp_all add: sample_issue_def)

lemma sample_create:
  "snd (report_issue sample_float strip_dots empty_db 1 sample_form []) =
   \<lparr>users = sample_users, issues = [sample_issue], images = [],
    logs = [\<lparr>log_id = 1, log_issue_id = Some 1, log_status = ''Reported'', admin_id = None\<rparr>]\<rparr>"
proof -
  have i: "iid sample_issue = 1" by (simp add: sample_issue_def)
  show ?thesis
    unfolding report_issue_def sample_new_issue
    by (simp add: Let_def i sample_issue_stored empty_db_def add_log_def next_id_def
        split: option.splits)
qed

lemma sample_flags:
  "flag_calls \<lparr>users = sample_users, issues = [sample_issue\<lparr>status := st\<rparr>], images = [],
    logs = ls\<rparr> [1, 2, 1, 2, 3] 1 =
   \<lparr>users = sample_users,
    issues = [sample_issue\<lparr>flags := 5, status := ''Flagged''\<rparr>],
    images = [],
    logs = ls @ [\<lparr>log_id = next_id (map log_id ls), log_issue_id = Some 1,
                  log_status = ''Flagged'', admin_id = None\<rparr>]\<rparr>"
  by (simp add: sample_issue_def get_issue_def flag_issue_def
      commit_issue_def add_log_def Let_def)

lemma run_flags: "run pf sec (map (\<lambda>c. Flag c k) cs) d = flag_calls d cs k"
  by (induction cs arbitrary: d) (simp_all add: run_def)

lemma run_append: "run pf sec (xs @ ys) d = run pf sec ys (run pf sec xs d)"
  by (simp add: run_def)

lemma sample_run_eq:
  "run sample_float strip_dots
     [Create 1 sample_form [], Flag 1 1, Flag 2 1, Flag 1 1, Flag 2 1, Flag 3 1] empty_db =
   \<lparr>users = sample_users,
    issues = [sample_issue\<lparr>flags := 5, status := ''Flagged''\<rparr>],
    images = [],
    logs = [\<lparr>log_id = 1, log_issue_id = Some 1, log_status = ''Reported'', admin_id = None\<rparr>,
            \<lparr>log_id = 2, log_issue_id = Some 1, log_status = ''Flagged'', admin_id = None\<rparr>]\<rparr>"
proof -
  have "run sample_float strip_dots
     [Create 1 sample_form [], Flag 1 1, Flag 2 1, Flag 1 1, Flag 2 1, Flag 3 1] empty_db =
     run sample_float strip_dots (map (\<lambda>c. Flag c 1) [1, 2, 1, 2, 3])
       (snd (report_issue sample_float strip_dots empty_db 1 sample_form []))"
    by (simp add: run_def)
  moreover have "sample_issue\<lparr>status := ''Reported''\<rparr> = sample_issue"
    by (simp add: sample_issue_def)
  ultimately show ?thesis
    unfolding run_flags sample_create
    using sample_flags [of "''Reported''"
        "[\<lparr>log_id = 1, log_issue_id = Some 1, log_status = ''Reported'', admin_id = None\<rparr>]"]
    by (simp add: next_id_def)
qed

lemma sample_set_status:
  "snd (update_issue_status
     \<lparr>users = sample_users, issues = [sample_issue], images = [],
      logs = [\<lparr>log_id = 1, log_issue_id = Some 1, log_status = ''Reported'', admin_id = None\<rparr>]\<rparr>
     3 1 (Some ''In Progress'')) =
   \<lparr>users = sample_users, issues = [sample_issue\<lparr>status := ''In Progress''\<rparr>], images = [],
    logs = [\<lparr>log_id = 1, log_issue_id = Some 1, log_status = ''Reported'', admin_id = None\<rparr>,
            \<lparr>log_id = 2, log_issue_id = Some 1, log_status = ''In Progress'',
             admin_id = Some 3\<rparr>]\<rparr>"
  by (simp add: update_issue_status_def get_user_def get_issue_def sample_users_def
      sample_issue_def valid_statuses_def commit_issue_def add_log_def next_id_def
      Let_def split: option.splits)

text \<open>
  An admin sets the status before the flags arrive: the five flags put the issue in
  Flagged, no issue is set apart, and the invariant holds although the sequence has a
  setStatus.
\<close>

theorem flag_invariant_except_admin_moves_witness:
  "issues empty_db = [] \<and>
   moved_out sample_float strip_dots
     [Create 1 sample_form [], SetStatus 3 1 (Some ''In Progress''),
      Flag 1 1, Flag 2 1, Flag 1 1, Flag 2 1, Flag 3 1] empty_db [] = [] \<and>
   flag_inv (run sample_float strip_dots
     [Create 1 sample_form [], SetStatus 3 1 (Some ''In Progress''),
      Flag 1 1, Flag 2 1, Flag 1 1, Flag 2 1, Flag 3 1] empty_db) \<and>
   issues (run sample_float strip_dots
     [Create 1 sample_form [], SetStatus 3 1 (Some ''In Progress''),
      Flag 1 1, Flag 2 1, Flag 1 1, Flag 2 1, Flag 3 1] empty_db) =
     [sample_issue\<lparr>flags := 5, status := ''Flagged''\<rparr>]"
proof -
  let ?ops = "[Create 1 sample_form [], SetStatus 3 1 (Some ''In Progress''),
      Flag 1 1, Flag 2 1, Flag 1 1, Flag 2 1, Flag 3 1]"
  have h: "issues empty_db = []" by (simp add: empty_db_def)
  have w: "status_written
     (snd (report_issue sample_float strip_dots empty_db 1 sample_form [])) 3 1
     (Some ''In Progress'')"
    unfolding sample_create
    by (simp add: status_written_def get_user_def get_issue_def sample_users_def
        sample_issue_def valid_statuses_def)
  have m: "moved_out sample_float strip_dots ?ops empty_db [] = []"
    using w by simp
  have "run sample_float strip_dots ?ops empty_db =
     run sample_float strip_dots (map (\<lambda>c. Flag c 1) [1, 2, 1, 2, 3])
       (snd (update_issue_status
          (snd (report_issue sample_float strip_dots empty_db 1 sample_form []))
          3 1 (Some ''In Progress'')))"
    by (simp add: run_def)
  then have r: "issues (run sample_float strip_dots ?ops empty_db) =
     [sample_issue\<lparr>flags := 5, status := ''Flagged''\<rparr>]"
    unfolding run_flags sample_create sample_set_status sample_flags by simp
  show ?thesis
    using flag_invariant_except_admin_moves [OF h, of sample_float strip_dots ?ops] h m r
    by blast
qed

text \<open>
  Five flags and then an admin's setStatus to Resolved: the issue has five flags and
  status Resolved, a reachable state in which the invariant of C4 fails.
\<close>

theorem flag_invariant_counterexample:
  "issues (run sample_float strip_dots
     [Create 1 sample_form [], Flag 1 1, Flag 2 1, Flag 1 1, Flag 2 1, Flag 3 1,
      SetStatus 3 1 (Some ''Resolved'')] empty_db) =
     [sample_issue\<lparr>flags := 5, status := ''Resolved''\<rparr>] \<and>
   \<not> flag_inv (run sample_float strip_dots
     [Create 1 sample_form [], Flag 1 1, Flag 2 1, Flag 1 1, Flag 2 1, Flag 3 1,
      SetStatus 3 1 (Some ''Resolved'')] empty_db)"
proof -
  let ?ops = "[Create 1 sample_form [], Flag 1 1, Flag 2 1, Flag 1 1, Flag 2 1, Flag 3 1]"
  have "run sample_float strip_dots (?ops @ [SetStatus 3 1 (Some ''Resolved'')]) empty_db =
     snd (update_issue_status (run sample_float strip_dots ?ops empty_db) 3 1 (Some ''Resolved''))"
    unfolding run_append by (simp add: run_def)
  then have split: "run sample_float strip_dots
     [Create 1 sample_form [], Flag 1 1, Flag 2 1, Flag 1 1, Flag 2 1, Flag 3 1,
      SetStatus 3 1 (Some ''Resolved'')] empty_db =
     snd (update_issue_status (run sample_float strip_dots ?ops empty_db) 3 1 (Some ''Resolved''))"
    by simp
  have i: "issues (snd (update_issue_status (run sample_float strip_dots ?ops empty_db)
             3 1 (Some ''Resolved''))) = [sample_issue\<lparr>flags := 5, status := ''Resolved''\<rparr>]"
    unfolding sample_run_eq
    by (simp add: update_issue_status_def get_user_def get_issue_def sample_users_def
        sample_issue_def valid_statuses_def commit_issue_def add_log_def
        Let_def split: option.splits)
  show ?thesis
    unfolding split flag_inv_def i by (simp add: sample_issue_def)
qed

section \<open>Creating an issue is two commits\<close>

lemma report_issue_images_raise:
  "new_issue_of pf d caller data = Some x \<Longrightarrow> latitude x \<noteq> NaN \<Longrightarrow> longitude x \<noteq> NaN \<Longrightarrow>
   pending_images sec files = None \<Longrightarrow>
   report_issue pf sec d caller data files = (Inl BadRequest, d\<lparr>issues := issues d @ [x]\<rparr>)"
  by (simp add: report_issue_def Let_def)

lemma dot_png_raises:
  "pending_images strip_dots [\<lparr>up_filename = ''.png'', up_uuid = ''u1'', up_saves = True\<rparr>] = None"
  by (simp add: allowed_file_def rsplit_ext_def lower_def ALLOWED_EXTENSIONS_def strip_dots_def)

text \<open>
  C2. A create request with valid fields and one uploaded file named \<open>.png\<close>:
  \<^verbatim>\<open>allowed_file\<close> accepts the name, \<^verbatim>\<open>secure_filename\<close> strips the leading dot, and
  \<^verbatim>\<open>rsplit('.', 1)[1]\<close> raises. The handler rolls back and answers 400, but the issue
  was committed before the loop: the store holds the new issue with no StatusLog entry
  and no image.
\<close>

theorem create_leaves_partial_state:
  "report_issue sample_float strip_dots empty_db 1 sample_form
     [\<lparr>up_filename = ''.png'', up_uuid = ''u1'', up_saves = True\<rparr>] =
     (Inl BadRequest, empty_db\<lparr>issues := [sample_issue]\<rparr>) \<and>
   get_issue (empty_db\<lparr>issues := [sample_issue]\<rparr>) 1 = Some sample_issue \<and>
   logs_of (empty_db\<lparr>issues := [sample_issue]\<rparr>) 1 = [] \<and>
   images_of (empty_db\<lparr>issues := [sample_issue]\<rparr>) 1 = []"
proof -
  have e: "issues empty_db @ [sample_issue] = [sample_issue]"
    by (simp add: empty_db_def)
  have r: "report_issue sample_float strip_dots empty_db 1 sample_form
     [\<lparr>up_filename = ''.png'', up_uuid = ''u1'', up_saves = True\<rparr>] =
     (Inl BadRequest, empty_db\<lparr>issues := [sample_issue]\<rparr>)"
    using report_issue_images_raise [OF sample_new_issue sample_issue_stored dot_png_raises]
    unfolding e .
  show ?thesis
    unfolding r
    by (simp add: get_issue_def logs_of_def images_of_def empty_db_def sample_issue_def)
qed

section \<open>The error branches of the listing\<close>

lemma float_arg_None:
  "float_arg pf v = None \<longleftrightarrow> v = None \<or> (\<exists>s. v = Some s \<and> pf s = None)"
  by (cases v) (simp_all add: float_arg_def)

lemma get_issues_BadRequest:
  "get_issues pf gd d cu args = Inl BadRequest \<longleftrightarrow>
   float_arg pf (args ''lat'') = None \<or> float_arg pf (args ''lon'') = None"
  by (simp add: get_issues_def Let_def split: option.splits)

text \<open>
  C10. The listing answers 400 exactly when \<open>lat\<close> or \<open>lon\<close> is missing or is a string
  that \<^verbatim>\<open>float\<close> rejects. A \<open>radius\<close> that \<^verbatim>\<open>float\<close> rejects is converted outside the
  \<^verbatim>\<open>try\<close>: with \<open>lat\<close> and \<open>lon\<close> valid, the request ends in an unhandled exception.
\<close>

theorem listing_error_branches:
  "(get_issues pf gd d cu args = Inl BadRequest \<longleftrightarrow>
      args ''lat'' = None \<or> (\<exists>s. args ''lat'' = Some s \<and> pf s = None) \<or>
      args ''lon'' = None \<or> (\<exists>s. args ''lon'' = Some s \<and> pf s = None)) \<and>
   (args ''lat'' = Some a \<longrightarrow> pf a \<noteq> None \<longrightarrow> args ''lon'' = Some b \<longrightarrow> pf b \<noteq> None \<longrightarrow>
      args ''radius'' = Some r \<longrightarrow> pf r = None \<longrightarrow>
      get_issues pf gd d cu args = Inl Unhandled)"
proof (intro conjI impI)
  show "get_issues pf gd d cu args = Inl BadRequest \<longleftrightarrow>
      args ''lat'' = None \<or> (\<exists>s. args ''lat'' = Some s \<and> pf s = None) \<or>
      args ''lon'' = None \<or> (\<exists>s. args ''lon'' = Some s \<and> pf s = None)"
    unfolding get_issues_BadRequest float_arg_None by blast
next
  assume "args ''lat'' = Some a" "pf a \<noteq> None" "args ''lon'' = Some b" "pf b \<noteq> None"
    "args ''radius'' = Some r" "pf r = None"
  then show "get_issues pf gd d cu args = Inl Unhandled"
    by (auto simp: get_issues_def float_arg_def)
qed

theorem listing_error_branches_witness:
  "sample_float ''12.9716'' \<noteq> None \<and> sample_float ''77.5946'' \<noteq> None \<and>
   sample_float ''five'' = None \<and>
   get_issues sample_float sample_geodesic sample_db None
     [''lat'' \<mapsto> ''12.9716'', ''lon'' \<mapsto> ''77.5946'', ''radius'' \<mapsto> ''five''] = Inl Unhandled \<and>
   get_issues sample_float sample_geodesic sample_db None
     [''lat'' \<mapsto> ''12.9716'', ''lon'' \<mapsto> ''77.5946'', ''radius'' \<mapsto> ''five''] \<noteq> Inl BadRequest"
proof -
  let ?args = "[''lat'' \<mapsto> ''12.9716'', ''lon'' \<mapsto> ''77.5946'', ''radius'' \<mapsto> ''five'']"
  have a: "?args ''lat'' = Some ''12.9716''" "?args ''lon'' = Some ''77.5946''"
    "?args ''radius'' = Some ''five''" by simp_all
  have p: "sample_float ''12.9716'' \<noteq> None" "sample_float ''77.5946'' \<noteq> None"
    "sample_float ''five'' = None" by (simp_all add: sample_float_def)
  have u: "get_issues sample_float sample_geodesic sample_db None ?args = Inl Unhandled"
    using listing_error_branches [of sample_float sample_geodesic sample_db None ?args
        "''12.9716''" "''77.5946''" "''five''"] a p by blast
  show ?thesis using p u by simp
qed

section \<open>What create and the listing reject\<close>

lemma new_issue_of_None:
  "new_issue_of pf d caller data = None \<longleftrightarrow>
   data ''title'' = None \<or> data ''description'' = None \<or> data ''category'' = None \<or>
   float_arg pf (data ''latitude'') = None \<or> float_arg pf (data ''longitude'') = None"
  by (auto simp: new_issue_of_def float_arg_def split: option.splits)

lemma new_issue_of_fields:
  "new_issue_of pf d caller data = Some x \<Longrightarrow>
   user_id x = caller \<and>
   is_anonymous x =
     (lower (case data ''is_anonymous'' of None \<Rightarrow> ''false'' | Some a \<Rightarrow> a) = ''true'') \<and>
   data ''title'' = Some (title x) \<and> data ''category'' = Some (category x) \<and>
   float_arg pf (data ''latitude'') = Some (latitude x) \<and>
   float_arg pf (data ''longitude'') = Some (longitude x) \<and>
   status x = ''Reported'' \<and> upvotes x = 0 \<and> flags x = 0"
  by (auto simp: new_issue_of_def float_arg_def split: option.splits)

lemma users_add_images [simp]: "users (add_images d k ns) = users d"
  by (induction ns arbitrary: d) auto

lemma get_user_users_cong: "users d' = users d \<Longrightarrow> get_user d' k = get_user d k"
  by (simp add: get_user_def)

lemma format_issue_None:
  "format_issue d x cu = None \<longleftrightarrow> \<not> is_anonymous x \<and> get_user d (user_id x) = None"
  by (simp add: format_issue_def Let_def)

lemma report_issue_BadRequest:
  "fst (report_issue pf sec d caller data files) = Inl BadRequest \<longleftrightarrow>
   new_issue_of pf d caller data = None \<or>
   float_arg pf (data ''latitude'') = Some NaN \<or> float_arg pf (data ''longitude'') = Some NaN \<or>
   pending_images sec files = None \<or>
   (lower (case data ''is_anonymous'' of None \<Rightarrow> ''false'' | Some a \<Rightarrow> a) \<noteq> ''true'' \<and>
    get_user d caller = None)"
proof (cases "new_issue_of pf d caller data")
  case None
  then show ?thesis by (simp add: report_issue_def)
next
  case (Some x)
  note fx = new_issue_of_fields [OF Some]
  show ?thesis
  proof (cases "latitude x = NaN \<or> longitude x = NaN")
    case True
    then show ?thesis using Some fx by (auto simp: report_issue_def)
  next
    case False
    show ?thesis
    proof (cases "pending_images sec files")
      case None
      then show ?thesis using Some False by (simp add: report_issue_def Let_def)
    next
      case (Some names)
      let ?d2 = "add_log (add_images (d\<lparr>issues := issues d @ [x]\<rparr>) (iid x) names)
                   (iid x) ''Reported'' None"
      have "users ?d2 = users d" by (simp add: add_log_def)
      then have gu: "get_user ?d2 caller = get_user d caller"
        by (rule get_user_users_cong)
      have "fst (report_issue pf sec d caller data files) = Inl BadRequest \<longleftrightarrow>
            format_issue ?d2 x (Some caller) = None"
        using \<open>new_issue_of pf d caller data = Some x\<close> Some False
        by (simp add: report_issue_def Let_def split: option.splits)
      then show ?thesis
        using \<open>new_issue_of pf d caller data = Some x\<close> Some False fx gu
        by (simp add: format_issue_None)
    qed
  qed
qed

lemma report_issue_issues:
  "new_issue_of pf d caller data = Some x \<Longrightarrow> latitude x \<noteq> NaN \<Longrightarrow> longitude x \<noteq> NaN \<Longrightarrow>
   pending_images sec files \<noteq> None \<Longrightarrow>
   issues (snd (report_issue pf sec d caller data files)) = issues d @ [x]"
  by (auto simp: report_issue_def Let_def split: option.splits)

text \<open>
  C5 (as the code has it). Create does no range or emptiness check. It answers 400
  exactly when one of title, description, category, latitude and longitude is missing
  from the form, or latitude or longitude is a string that \<^verbatim>\<open>float\<close> rejects or reads
  as NaN (the insert then violates NOT NULL), or the handling of an uploaded file
  raises, or the serialisation of the new issue raises (the issue is not anonymous and
  the caller has no user row). The listing answers 400 exactly when \<open>lat\<close> or \<open>lon\<close> is
  missing or is a string that \<^verbatim>\<open>float\<close> rejects; the values of the floats play no part.
\<close>

theorem create_and_listing_rejections:
  "(fst (report_issue pf sec d caller data files) = Inl BadRequest \<longleftrightarrow>
      data ''title'' = None \<or> data ''description'' = None \<or> data ''category'' = None \<or>
      float_arg pf (data ''latitude'') = None \<or> float_arg pf (data ''longitude'') = None \<or>
      float_arg pf (data ''latitude'') = Some NaN \<or>
      float_arg pf (data ''longitude'') = Some NaN \<or>
      pending_images sec files = None \<or>
      (lower (case data ''is_anonymous'' of None \<Rightarrow> ''false'' | Some a \<Rightarrow> a) \<noteq> ''true'' \<and>
       get_user d caller = None)) \<and>
   (get_issues pf gd d cu args = Inl BadRequest \<longleftrightarrow>
      float_arg pf (args ''lat'') = None \<or> float_arg pf (args ''lon'') = None)"
  by (simp add: report_issue_BadRequest new_issue_of_None get_issues_BadRequest disj_assoc)

lemma unchecked_new_issue:
  "new_issue_of sample_float empty_db 1 unchecked_form =
     Some \<lparr>iid = 1, title = '''', description = '''', category = '''', latitude = Num 1000,
           longitude = Num 500, status = ''Reported'', user_id = 1, is_anonymous = False,
           upvotes = 0, flags = 0\<rparr>"
  by (simp add: new_issue_of_def sample_float_def unchecked_form_def empty_db_def
      lower_def next_id_def)

theorem create_and_listing_rejections_witness:
  "fst (report_issue sample_float strip_dots empty_db 1 unchecked_form []) \<noteq> Inl BadRequest \<and>
   get_issues sample_float sample_geodesic empty_db None
     [''lat'' \<mapsto> ''1000'', ''lon'' \<mapsto> ''500''] \<noteq> Inl BadRequest \<and>
   fst (report_issue sample_float strip_dots empty_db 1 (unchecked_form(''latitude'' \<mapsto> ''north'')) [])
     = Inl BadRequest \<and>
   fst (report_issue sample_float strip_dots empty_db 1 (unchecked_form(''latitude'' \<mapsto> ''nan'')) [])
     = Inl BadRequest \<and>
   fst (report_issue sample_float strip_dots empty_db 1 (unchecked_form(''latitude'' \<mapsto> ''inf'')) [])
     \<noteq> Inl BadRequest"
proof -
  have f: "unchecked_form ''title'' = Some ''''" "unchecked_form ''description'' = Some ''''"
    "unchecked_form ''category'' = Some ''''" "unchecked_form ''latitude'' = Some ''1000''"
    "unchecked_form ''longitude'' = Some ''500''" "unchecked_form ''is_anonymous'' = None"
    by (simp_all add: unchecked_form_def)
  have p: "sample_float ''1000'' = Some (Num 1000)" "sample_float ''500'' = Some (Num 500)"
    "sample_float ''north'' = None" "sample_float ''nan'' = Some NaN"
    "sample_float ''inf'' = Some PosInf"
    by (simp_all add: sample_float_def)
  have u: "get_user empty_db 1 \<noteq> None"
    by (simp add: get_user_def empty_db_def sample_users_def)
  have l: "lower ''false'' \<noteq> ''true''" by (simp add: lower_def)
  show ?thesis
    using create_and_listing_rejections [where pf = sample_float and sec = strip_dots
            and d = empty_db and caller = 1 and data = unchecked_form and files = "[]"
            and gd = sample_geodesic and cu = None
            and args = "[''lat'' \<mapsto> ''1000'', ''lon'' \<mapsto> ''500'']"]
          create_and_listing_rejections [where pf = sample_float and sec = strip_dots
            and d = empty_db and caller = 1
            and data = "unchecked_form(''latitude'' \<mapsto> ''north'')" and files = "[]"
            and gd = sample_geodesic and cu = None
            and args = "[''lat'' \<mapsto> ''1000'', ''lon'' \<mapsto> ''500'']"]
          create_and_listing_rejections [where pf = sample_float and sec = strip_dots
            and d = empty_db and caller = 1
            and data = "unchecked_form(''latitude'' \<mapsto> ''nan'')" and files = "[]"
            and gd = sample_geodesic and cu = None
            and args = "[''lat'' \<mapsto> ''1000'', ''lon'' \<mapsto> ''500'']"]
          create_and_listing_rejections [where pf = sample_float and sec = strip_dots
            and d = empty_db and caller = 1
            and data = "unchecked_form(''latitude'' \<mapsto> ''inf'')" and files = "[]"
            and gd = sample_geodesic and cu = None
            and args = "[''lat'' \<mapsto> ''1000'', ''lon'' \<mapsto> ''500'']"]
          f p u l
    by (simp add: float_arg_def)
qed

text \<open>
  Create accepts latitude 1000, longitude 500 and an empty title and category, and the
  listing does not answer 400 for a centre at latitude 1000, where C5 says that each is
  rejected.
\<close>

theorem create_unchecked_counterexample:
  "fst (report_issue sample_float strip_dots empty_db 1 unchecked_form []) \<noteq> Inl BadRequest \<and>
   issues (snd (report_issue sample_float strip_dots empty_db 1 unchecked_form [])) =
     [\<lparr>iid = 1, title = '''', description = '''', category = '''', latitude = Num 1000,
       longitude = Num 500, status = ''Reported'', user_id = 1, is_anonymous = False,
       upvotes = 0, flags = 0\<rparr>] \<and>
   get_issues sample_float sample_geodesic empty_db None
     [''lat'' \<mapsto> ''1000'', ''lon'' \<mapsto> ''500''] = Inr [] \<and>
   get_issues sample_float sample_geodesic sample_db None
     [''lat'' \<mapsto> ''1000'', ''lon'' \<mapsto> ''500''] = Inl Unhandled"
proof -
  have u: "get_user empty_db 1 \<noteq> None"
    by (simp add: get_user_def empty_db_def sample_users_def)
  have n: "new_issue_of sample_float empty_db 1 unchecked_form \<noteq> None"
    by (simp add: unchecked_new_issue)
  have f: "float_arg sample_float (unchecked_form ''latitude'') = Some (Num 1000)"
    "float_arg sample_float (unchecked_form ''longitude'') = Some (Num 500)"
    by (simp_all add: float_arg_def unchecked_form_def sample_float_def)
  have 1: "fst (report_issue sample_float strip_dots empty_db 1 unchecked_form []) \<noteq> Inl BadRequest"
    unfolding report_issue_BadRequest using u n f by simp
  have 2: "issues (snd (report_issue sample_float strip_dots empty_db 1 unchecked_form [])) =
     [\<lparr>iid = 1, title = '''', description = '''', category = '''', latitude = Num 1000,
       longitude = Num 500, status = ''Reported'', user_id = 1, is_anonymous = False,
       upvotes = 0, flags = 0\<rparr>]"
    using report_issue_issues [OF unchecked_new_issue, of strip_dots "[]"]
    by (simp add: empty_db_def)
  have 3: "get_issues sample_float sample_geodesic empty_db None
     [''lat'' \<mapsto> ''1000'', ''lon'' \<mapsto> ''500''] = Inr []"
    by (simp add: get_issues_def float_arg_def sample_float_def query_filter_def empty_db_def)
  have 4: "get_issues sample_float sample_geodesic sample_db None
     [''lat'' \<mapsto> ''1000'', ''lon'' \<mapsto> ''500''] = Inl Unhandled"
    by (simp add: get_issues_def float_arg_def sample_float_def query_filter_def sample_db_def
        sample_issue_def is_within_radius_def sample_geodesic_def in_degrees_def)
  show ?thesis using 1 2 3 4 by blast
qed

section \<open>The result set of the listing\<close>













end
